theory Spec2Isabelle
  imports
    Complex_Main
    "HOL-Library.Char_ord"
    "HOL-Library.List_Lexorder"
    "HOL-Library.Option_ord"
    "HOL-Library.Product_Lexorder"
    "HOL-Library.Multiset"
begin

section \<open>Survey aggregation scripts: data model\<close>

text \<open>
  The scripts read a CSV export into a dataframe and work column-wise on it. A dataframe
  is modelled as the list of its rows, in file order. A cell read from the CSV is either
  a string or missing (the dataframe library's NaN): \<open>None\<close> is the missing cell.
  The \<open>created_at\<close> column is held after \<open>to_datetime\<close>: a point on the time line,
  counted in seconds, or missing (NaT). An empty created_at cell parses to NaT in every
  script; text that is no date parses to NaT in the date-filter script (it coerces) and
  makes the evacuation scripts raise before any step modelled here. \<open>created_at_tz\<close>
  tells whether the cell's text carries a UTC offset (a trailing Z, say): parsed without
  \<open>utc=True\<close> such a value is tz-aware, and one without an offset is tz-naive.
  Percentages are exact rationals; the scripts compute them in binary floating point,
  whose rounding is not modelled.
\<close>

type_synonym cell = "string option"

record response =
  user_id :: cell
  hashed_user_id :: cell
  session_id :: cell
  question :: cell
  step_name :: cell
  answer :: cell
  created_at :: "int option"
  created_at_tz :: bool

text \<open>
  Rows of the two CSV layouts the scripts read; the columns a script does not read are
  left missing. A survey row has hashed_user_id, session_id, question, answer and
  created_at, written without an offset (\<open>survey_row\<close>) or with a trailing Z
  (\<open>survey_row_utc\<close>); a game row has user_id, step_name, answer and created_at, written
  with a trailing Z.
\<close>

definition survey_row :: "string \<Rightarrow> string \<Rightarrow> string \<Rightarrow> cell \<Rightarrow> int option \<Rightarrow> response" where
  "survey_row h s q a t =
     \<lparr>user_id = None, hashed_user_id = Some h, session_id = Some s, question = Some q,
      step_name = None, answer = a, created_at = t, created_at_tz = False\<rparr>"

definition survey_row_utc :: "string \<Rightarrow> string \<Rightarrow> string \<Rightarrow> cell \<Rightarrow> int option \<Rightarrow> response" where
  "survey_row_utc h s q a t = (survey_row h s q a t)\<lparr>created_at_tz := True\<rparr>"

definition game_row :: "string \<Rightarrow> string \<Rightarrow> string \<Rightarrow> int option \<Rightarrow> response" where
  "game_row u step a t =
     \<lparr>user_id = Some u, hashed_user_id = None, session_id = None, question = None,
      step_name = Some step, answer = Some a, created_at = t, created_at_tz = True\<rparr>"

text \<open>A parsed CSV: the header's column names and the rows.\<close>

record table =
  columns :: "string list"
  rows :: "response list"

datatype error =
    MissingColumns "string list"
  | EmptyDataError
  | InvalidStartDate string
  | ValueError string
  | TypeError

text \<open>
  A date given on the command line, as \<open>to_datetime\<close> without \<open>utc=True\<close> parses it:
  tz-naive when the text has no offset, tz-aware when it has one.
\<close>

datatype timestamp =
    Naive int
  | Aware int

fun instant :: "timestamp \<Rightarrow> int" where
  "instant (Naive ts) = ts"
| "instant (Aware ts) = ts"

fun tz_aware :: "timestamp \<Rightarrow> bool" where
  "tz_aware (Naive ts) = False"
| "tz_aware (Aware ts) = True"

text \<open>
  What a script writes to standard output: a line of text, a table written by \<open>to_csv\<close>
  (answer, percentage), a per-user table (hashed_user_id, answer, percentage), or the
  line reporting the share of 2009 answers.
\<close>

datatype out_item =
    Line string
  | Csv "(cell \<times> rat) list"
  | UserCsv "(cell \<times> cell \<times> rat) list"
  | Percent2009 rat

text \<open>A run ends with \<open>sys.exit(1)\<close> after an error message, or with status 0.\<close>

datatype outcome =
    Exit1 error
  | Exit0 "out_item list"

section \<open>Dataframe primitives\<close>

text \<open>\<open>astype(str)\<close>: a missing cell becomes the text nan.\<close>

definition astype_str :: "cell \<Rightarrow> string" where
  "astype_str c = (case c of None \<Rightarrow> ''nan'' | Some s \<Rightarrow> s)"

text \<open>\<open>str.startswith\<close>: the second argument is the prefix looked for.\<close>

fun startswith :: "string \<Rightarrow> string \<Rightarrow> bool" where
  "startswith s [] = True"
| "startswith [] (p # ps) = False"
| "startswith (c # cs) (p # ps) = (c = p \<and> startswith cs ps)"

text \<open>\<open>unique()\<close>: the distinct values in order of first appearance.\<close>

definition unique :: "'a list \<Rightarrow> 'a list" where
  "unique xs = rev (remdups (rev xs))"

text \<open>
  \<open>value_counts()\<close>: missing values are dropped (\<open>dropna=True\<close>), each distinct value
  is paired with its number of occurrences, most frequent first. Among values with equal
  counts the library promises no order; the model keeps the order of first appearance.
  Where the scripts then sort by percentage, rows with equal percentages likewise keep
  their order. No statement below depends on the order of such ties.
\<close>

definition value_counts :: "cell list \<Rightarrow> (cell \<times> nat) list" where
  "value_counts xs =
     (let vs = filter (\<lambda>c. c \<noteq> None) xs
      in sort_key (\<lambda>(v, n). - int n) (map (\<lambda>v. (v, count_list vs v)) (unique vs)))"

text \<open>
  \<open>read_csv\<close> infers a column's type from its fields: a column all of whose present
  fields convert to numbers is read as numbers, any other as text. \<open>is_number\<close> is the
  reader's test of one field. The scripts compare the answer column with a string, and
  on a column read as numbers that comparison is false in every row.
\<close>

definition answer_is_text :: "(string \<Rightarrow> bool) \<Rightarrow> response list \<Rightarrow> bool" where
  "answer_is_text is_number df =
     list_ex (\<lambda>r. case answer r of None \<Rightarrow> False | Some a \<Rightarrow> \<not> is_number a) df"

definition answer_equals :: "bool \<Rightarrow> string \<Rightarrow> response \<Rightarrow> bool" where
  "answer_equals answer_text a r = (answer_text \<and> answer r = Some a)"

text \<open>
  The created_at column after \<open>to_datetime\<close> without \<open>utc=True\<close> is of one kind:
  tz-aware when its dated fields carry an offset, tz-naive otherwise, and tz-naive when
  no field is dated. (The parser takes the format of the first dated field for all, so
  the dated rows of a parsed column agree; the model takes a column with some aware row
  as aware.)
\<close>

definition tz_aware_column :: "response list \<Rightarrow> bool" where
  "tz_aware_column df = list_ex (\<lambda>r. created_at r \<noteq> None \<and> created_at_tz r) df"

text \<open>
  The library's functions on the fields the examples below use: a field of digits
  converts to a number, and the text 2026-01-02, which has no offset, parses to the
  tz-naive midnight of that day, second 1767312000 when read as UTC.
\<close>

definition digits_only :: "string \<Rightarrow> bool" where
  "digits_only s = (s \<noteq> [] \<and> list_all (\<lambda>c. c \<in> set ''0123456789'') s)"

definition parse_2026_01_02 :: "string \<Rightarrow> timestamp option" where
  "parse_2026_01_02 s = (if s = ''2026-01-02'' then Some (Naive 1767312000) else None)"

definition parse_2026_01_02_utc :: "string \<Rightarrow> int option" where
  "parse_2026_01_02_utc s = (if s = ''2026-01-02'' then Some 1767312000 else None)"

section \<open>genetedatefilterprocess.py\<close>

text \<open>The fixed lines the scripts print.\<close>

definition hdr_all_data :: string where
  "hdr_all_data =
     ''--- Overall Percentage of Answers for Questions Starting with 'Now,' (All Data) ---''"

definition msg_no_now_full :: string where
  "msg_no_now_full =
     ''No questions starting with 'Now,' found in the full dataset (after date filter if applied).''"

definition hdr_first_2009 :: string where
  "hdr_first_2009 =
     ''--- Overall Percentage of '2009' Answers for Questions Starting with 'First' ---''"

definition msg_no_first :: string where
  "msg_no_first =
     ''No questions starting with 'First' found in the dataset (after date filter if applied).''"

definition msg_no_first_answers :: string where
  "msg_no_first_answers =
     ''No answers found for questions starting with 'First'.''"

definition hdr_filtered :: string where
  "hdr_filtered =
     ''--- Overall Percentage of Answers for Questions Starting with 'Now,' (Filtered by 'First' = '2009') ---''"

definition msg_no_sessions :: string where
  "msg_no_sessions =
     ''No sessions found where answer to a 'First' question was '2009'.''"

definition msg_no_filtered :: string where
  "msg_no_filtered =
     ''Therefore, no filtered percentages for 'Now,' questions can be calculated.''"

definition msg_no_now_filtered :: string where
  "msg_no_now_filtered =
     ''No questions starting with 'Now,' found in the filtered dataset (after date filter if applied).''"

definition msg_no_now_input :: string where
  "msg_no_now_input =
     ''No questions starting with 'Now,' found in the input.''"

definition msg_no_data_after :: "string \<Rightarrow> string" where
  "msg_no_data_after start_date =
     ''No data found on or after '' @ start_date @ '' after filtering.''"

definition calculate_aggregated_answer_percentages ::
    "response list \<Rightarrow> string \<Rightarrow> (cell \<times> rat) list" where
  "calculate_aggregated_answer_percentages df_input question_prefix =
     (let filtered_questions_df =
            filter (\<lambda>r. startswith (astype_str (question r)) question_prefix) df_input
      in if filtered_questions_df = [] then []
         else
           let answer_counts = value_counts (map answer filtered_questions_df);
               total_answers = sum_list (map snd answer_counts)
           in if total_answers = 0 then []
              else sort_key (\<lambda>(a, p). - p)
                     (map (\<lambda>(a, c). (a, (of_nat c / of_nat total_answers) * 100))
                        answer_counts))"

text \<open>The three report sections of \<open>process_and_output_percentages\<close>, in order.\<close>

definition overall_now_section :: "response list \<Rightarrow> out_item list" where
  "overall_now_section df =
     (let all_data_percentages = calculate_aggregated_answer_percentages df ''Now,''
      in [Line hdr_all_data]
         @ (if all_data_percentages \<noteq> [] then [Csv all_data_percentages]
            else [Line msg_no_now_full])
         @ [Line ''''])"

definition first_2009_section :: "bool \<Rightarrow> response list \<Rightarrow> out_item list" where
  "first_2009_section answer_text df =
     (let first_questions_overall_df =
            filter (\<lambda>r. startswith (astype_str (question r)) ''First'') df
      in [Line hdr_first_2009]
         @ (if first_questions_overall_df = []
            then [Line msg_no_first]
            else
              let total_first_questions_answered = length first_questions_overall_df;
                  answers_2009_count =
                    length (filter (answer_equals answer_text ''2009'')
                              first_questions_overall_df)
              in if total_first_questions_answered > 0
                 then [Percent2009
                         ((of_nat answers_2009_count / of_nat total_first_questions_answered) * 100)]
                 else [Line msg_no_first_answers])
         @ [Line ''''])"

definition sessions_with_2009_answer :: "bool \<Rightarrow> response list \<Rightarrow> cell list" where
  "sessions_with_2009_answer answer_text df =
     (let first_questions_df = filter (\<lambda>r. startswith (astype_str (question r)) ''First'') df
      in unique (map session_id
                   (filter (answer_equals answer_text ''2009'') first_questions_df)))"

definition conditional_section :: "bool \<Rightarrow> response list \<Rightarrow> out_item list" where
  "conditional_section answer_text df =
     (let sessions = sessions_with_2009_answer answer_text df
      in [Line hdr_filtered]
         @ (if length sessions = 0
            then [Line msg_no_sessions,
                  Line msg_no_filtered]
            else
              let filtered_df = filter (\<lambda>r. session_id r \<in> set sessions) df;
                  filtered_data_percentages =
                    calculate_aggregated_answer_percentages filtered_df ''Now,''
              in if filtered_data_percentages \<noteq> [] then [Csv filtered_data_percentages]
                 else [Line msg_no_now_filtered])
         @ [Line ''''])"

definition report_sections :: "bool \<Rightarrow> response list \<Rightarrow> out_item list" where
  "report_sections answer_text df =
     overall_now_section df @ first_2009_section answer_text df
       @ conditional_section answer_text df"

definition required_cols_datefilter :: "string list" where
  "required_cols_datefilter =
     [''hashed_user_id'', ''question'', ''answer'', ''session_id'', ''created_at'']"

text \<open>
  \<open>process_and_output_percentages(start_date)\<close>. Standard input is \<open>None\<close> when
  \<open>read_csv\<close> finds nothing to parse (it raises \<open>EmptyDataError\<close>), and the parsed table
  otherwise. \<open>to_datetime\<close> is the library's parser of the command-line date: \<open>None\<close>
  where it raises \<open>ValueError\<close>. An absent or empty \<open>--start-date\<close> is falsy.
  Comparing the created_at column with a start date of the other kind (tz-aware with
  tz-naive) raises \<open>TypeError\<close>, which the inner handler for \<open>ValueError\<close> lets pass
  and the outer handler for \<open>Exception\<close> turns into an error message and exit status 1.
  The type of the answer column is the one inferred when the table was read.
\<close>

definition process_and_output_percentages ::
    "(string \<Rightarrow> bool) \<Rightarrow> (string \<Rightarrow> timestamp option) \<Rightarrow> table option \<Rightarrow> string option
       \<Rightarrow> outcome" where
  "process_and_output_percentages is_number to_datetime stdin start_date =
     (case stdin of
        None \<Rightarrow> Exit1 EmptyDataError
      | Some t \<Rightarrow>
          if \<not> list_all (\<lambda>col. col \<in> set (columns t)) required_cols_datefilter
          then Exit1 (MissingColumns
                        (filter (\<lambda>col. col \<notin> set (columns t)) required_cols_datefilter))
          else
            let answer_text = answer_is_text is_number (rows t);
                df = filter (\<lambda>r. created_at r \<noteq> None) (rows t)
            in (case start_date of
                  None \<Rightarrow> Exit0 (report_sections answer_text df)
                | Some s \<Rightarrow>
                    if s = [] then Exit0 (report_sections answer_text df)
                    else
                      (case to_datetime s of
                         None \<Rightarrow> Exit1 (InvalidStartDate s)
                       | Some start_datetime \<Rightarrow>
                           if tz_aware_column df \<noteq> tz_aware start_datetime
                           then Exit1 TypeError
                           else
                             let df' = filter (\<lambda>r. case created_at r of
                                                      None \<Rightarrow> False
                                                    | Some ts \<Rightarrow> instant start_datetime \<le> ts) df
                             in if df' = []
                                then Exit0 [Line (msg_no_data_after s)]
                                else Exit0 (report_sections answer_text df'))))"

section \<open>geneteprocess.py\<close>

text \<open>
  \<open>groupby([hashed_user_id, answer]).size()\<close>: rows with a missing key are dropped
  (\<open>dropna=True\<close>), the groups come sorted by key. Keys are ordered as text here; a
  column that \<open>read_csv\<close> read as numbers is ordered by number in the script. That
  changes the order of the table's rows only, and no statement below depends on it.
\<close>

definition groupby_size :: "response list \<Rightarrow> ((cell \<times> cell) \<times> nat) list" where
  "groupby_size df =
     (let ks = filter (\<lambda>(u, a). u \<noteq> None \<and> a \<noteq> None)
                 (map (\<lambda>r. (hashed_user_id r, answer r)) df)
      in map (\<lambda>k. (k, count_list ks k)) (sort (remdups ks)))"

text \<open>\<open>groupby(hashed_user_id)[count].sum()\<close> over the counts table.\<close>

definition groupby_sum :: "((cell \<times> cell) \<times> nat) list \<Rightarrow> (cell \<times> nat) list" where
  "groupby_sum answer_counts =
     map (\<lambda>u. (u, sum_list (map snd (filter (\<lambda>((u', a), c). u' = u) answer_counts))))
       (sort (remdups (filter (\<lambda>u. u \<noteq> None) (map (\<lambda>((u, a), c). u) answer_counts))))"

text \<open>\<open>merge(answer_counts, total_answers_per_user, on=hashed_user_id)\<close>, an inner join.\<close>

definition merge_totals ::
    "((cell \<times> cell) \<times> nat) list \<Rightarrow> (cell \<times> nat) list \<Rightarrow> (cell \<times> cell \<times> nat \<times> nat) list" where
  "merge_totals answer_counts totals =
     concat (map (\<lambda>((u, a), c).
                    map (\<lambda>(u', total). (u, a, c, total)) (filter (\<lambda>(u', total). u' = u) totals))
               answer_counts)"

definition required_cols_drought :: "string list" where
  "required_cols_drought = [''hashed_user_id'', ''question'', ''answer'']"

definition user_percentages :: "response list \<Rightarrow> (cell \<times> cell \<times> rat) list" where
  "user_percentages filtered_questions_df =
     (let answer_counts = groupby_size filtered_questions_df;
          total_answers_per_user = groupby_sum answer_counts;
          merged_df = merge_totals answer_counts total_answers_per_user;
          final_output_df =
            map (\<lambda>(u, a, c, total). (u, a, (of_nat c / of_nat total) * 100)) merged_df
      in sort_key (\<lambda>(u, a, p). (u, - p)) final_output_df)"

definition calculate_drought_answer_percentages :: "table option \<Rightarrow> outcome" where
  "calculate_drought_answer_percentages stdin =
     (case stdin of
        None \<Rightarrow> Exit1 EmptyDataError
      | Some t \<Rightarrow>
          if \<not> list_all (\<lambda>col. col \<in> set (columns t)) required_cols_drought
          then Exit1 (MissingColumns
                        (filter (\<lambda>col. col \<notin> set (columns t)) required_cols_drought))
          else
            let filtered_questions_df =
                  filter (\<lambda>r. startswith (astype_str (question r)) ''Now,'') (rows t)
            in if filtered_questions_df = []
               then Exit0 [Line msg_no_now_input]
               else Exit0 [UserCsv (user_percentages filtered_questions_df)])"

section \<open>processEvacuate.py and firstworkingprocessEvacuate.py\<close>

text \<open>\<open>replace({Petowner: Pet Owner})\<close> on one cell of the answer column.\<close>

definition replace_petowner :: "cell \<Rightarrow> cell" where
  "replace_petowner a = (if a = Some ''Petowner'' then Some ''Pet Owner'' else a)"

definition standardize :: "response list \<Rightarrow> response list" where
  "standardize df = map (\<lambda>r. r\<lparr>answer := replace_petowner (answer r)\<rparr>) df"

text \<open>
  Modelled from the spec: the order in which \<open>sort_values(created_at)\<close> leaves rows with
  equal timestamps. The scripts call it with the library's default sort kind, which is
  not stable and fixes no order among such rows; the specification says that ties are
  broken by input row order (stable sort, then keep-last), and that is the order taken
  here. The rest is the library's: ascending, rows with a missing timestamp last
  (\<open>na_position=last\<close>).
\<close>

definition na_last :: "int option \<Rightarrow> bool \<times> int" where
  "na_last t = (case t of None \<Rightarrow> (True, 0) | Some x \<Rightarrow> (False, x))"

definition sort_values_created_at :: "response list \<Rightarrow> response list" where
  "sort_values_created_at df = sort_key (\<lambda>r. na_last (created_at r)) df"

text \<open>\<open>drop_duplicates(subset, keep=last)\<close>: of the rows with one key, the last stays.\<close>

fun drop_duplicates_last :: "('a \<Rightarrow> 'k) \<Rightarrow> 'a list \<Rightarrow> 'a list" where
  "drop_duplicates_last key [] = []"
| "drop_duplicates_last key (r # rs) =
     (if key r \<in> set (map key rs) then drop_duplicates_last key rs
      else r # drop_duplicates_last key rs)"

text \<open>\<open>isin(group)\<close> on the step name; a missing step name is in no group.\<close>

definition step_isin :: "string list \<Rightarrow> response \<Rightarrow> bool" where
  "step_isin grp r = (case step_name r of None \<Rightarrow> False | Some s \<Rightarrow> s \<in> set grp)"

text \<open>
  Latest-response extraction for a question group: select the group's rows, sort by
  \<open>created_at\<close>, keep each user's last row. The scripts then project to
  \<open>(user_id, answer)\<close>.
\<close>

definition latest_rows :: "string list \<Rightarrow> response list \<Rightarrow> response list" where
  "latest_rows grp df =
     drop_duplicates_last user_id (sort_values_created_at (filter (step_isin grp) df))"

definition latest_answers :: "string list \<Rightarrow> response list \<Rightarrow> (cell \<times> cell) list" where
  "latest_answers grp df = map (\<lambda>r. (user_id r, answer r)) (latest_rows grp df)"

text \<open>\<open>merge(player_types, evac_choices, on=user_id, how=inner)\<close>.\<close>

definition merge_inner :: "(cell \<times> cell) list \<Rightarrow> (cell \<times> cell) list \<Rightarrow> (cell \<times> cell \<times> cell) list" where
  "merge_inner player_types evac_choices =
     concat (map (\<lambda>(u, player_type).
                    map (\<lambda>(u', evacuate_choice). (u, player_type, evacuate_choice))
                      (filter (\<lambda>(u', evacuate_choice). u' = u) evac_choices))
               player_types)"

definition extract_and_merge :: "response list \<Rightarrow> (cell \<times> cell \<times> cell) list" where
  "extract_and_merge df =
     (let df = standardize df;
          player_types = latest_answers [''player_select'', ''playerselect''] df;
          evac_choices = latest_answers [''evacuate_select''] df
      in merge_inner player_types evac_choices)"

text \<open>
  What \<open>process_data\<close> hands back: it raised, it printed its no-data line and returned
  \<open>None\<close>, or it returned the merged frame.
\<close>

datatype frame =
    Raised error
  | NoData
  | Merged "(cell \<times> cell \<times> cell) list"

text \<open>\<open>dt.date\<close> of a timestamp in seconds: its day number.\<close>

definition date_of :: "int \<Rightarrow> int" where
  "date_of ts = ts div 86400"

definition filter_today :: "int \<Rightarrow> response list \<Rightarrow> response list" where
  "filter_today today df =
     filter (\<lambda>r. case created_at r of None \<Rightarrow> False | Some ts \<Rightarrow> date_of ts = today) df"

text \<open>
  firstworkingprocessEvacuate.py, \<open>process_data(csv_file, only_today)\<close>; \<open>today\<close> is
  the day the clock gives.
\<close>

definition process_data_first :: "int \<Rightarrow> response list \<Rightarrow> bool \<Rightarrow> frame" where
  "process_data_first today df only_today =
     (if only_today \<and> filter_today today df = [] then NoData
      else Merged (extract_and_merge (if only_today then filter_today today df else df)))"

text \<open>
  processEvacuate.py: the time window of \<open>process_data\<close>, after the bounds are parsed.
\<close>

definition filter_timeframe :: "int option \<Rightarrow> int option \<Rightarrow> response list \<Rightarrow> response list" where
  "filter_timeframe start_ts end_ts df =
     (let df = (case start_ts of
                  None \<Rightarrow> df
                | Some s \<Rightarrow> filter (\<lambda>r. case created_at r of None \<Rightarrow> False | Some ts \<Rightarrow> ts \<ge> s) df);
          df = (case end_ts of
                  None \<Rightarrow> df
                | Some e \<Rightarrow> filter (\<lambda>r. case created_at r of None \<Rightarrow> False | Some ts \<Rightarrow> ts \<le> e) df)
      in df)"

text \<open>
  A bound given on the command line: absent or empty is falsy and gives no bound; one
  that \<open>to_datetime\<close> cannot parse raises.
\<close>

definition parse_bound :: "(string \<Rightarrow> int option) \<Rightarrow> string option \<Rightarrow> error + int option" where
  "parse_bound to_datetime arg =
     (case arg of
        None \<Rightarrow> Inr None
      | Some s \<Rightarrow>
          if s = [] then Inr None
          else (case to_datetime s of None \<Rightarrow> Inl (ValueError s) | Some ts \<Rightarrow> Inr (Some ts)))"

definition process_data ::
    "(string \<Rightarrow> int option) \<Rightarrow> int \<Rightarrow> response list \<Rightarrow> bool \<Rightarrow> string option \<Rightarrow> string option
       \<Rightarrow> frame" where
  "process_data to_datetime today df only_today start_time end_time =
     (let df = (if only_today then filter_today today df else df)
      in case parse_bound to_datetime start_time of
           Inl e \<Rightarrow> Raised e
         | Inr start_ts \<Rightarrow>
             (case parse_bound to_datetime end_time of
                Inl e \<Rightarrow> Raised e
              | Inr end_ts \<Rightarrow>
                  let df = filter_timeframe start_ts end_ts df
                  in if df = [] then NoData else Merged (extract_and_merge df)))"

text \<open>
  The time window in the specification's words: \<open>created_at\<close> lies in the closed
  interval from \<open>start\<close> to \<open>end\<close>, either bound optional.
\<close>

definition in_window :: "int option \<Rightarrow> int option \<Rightarrow> response \<Rightarrow> bool" where
  "in_window start_ts end_ts r =
     (case created_at r of
        None \<Rightarrow> False
      | Some ts \<Rightarrow> (case start_ts of None \<Rightarrow> True | Some s \<Rightarrow> s \<le> ts)
                 \<and> (case end_ts of None \<Rightarrow> True | Some e \<Rightarrow> ts \<le> e))"

section \<open>Required columns\<close>

lemma absent_required_nonempty:
  "\<not> set required \<subseteq> set cols \<Longrightarrow> filter (\<lambda>col. col \<notin> set cols) required \<noteq> []"
  by (auto simp: filter_empty_conv)

lemma not_all_present:
  "\<not> set required \<subseteq> set cols \<Longrightarrow> \<not> list_all (\<lambda>col. col \<in> set cols) required"
  by (auto simp: list_all_iff)

text \<open>
  Claim C6. When a column required by the invoked script is absent from the input
  table, the run ends with exit status 1 and an error that names the absent columns:
  exactly the required columns that the table lacks, in the order of the required list.
  This holds for the date-filter script (five required columns) and for the per-user
  script (three required columns), whatever the rows and the start date.
\<close>

theorem missing_columns_abort:
  "(\<not> set required_cols_datefilter \<subseteq> set (columns t) \<longrightarrow>
      process_and_output_percentages is_number to_datetime (Some t) start_date
        = Exit1 (MissingColumns
                   (filter (\<lambda>col. col \<notin> set (columns t)) required_cols_datefilter))
      \<and> filter (\<lambda>col. col \<notin> set (columns t)) required_cols_datefilter \<noteq> []
      \<and> set (filter (\<lambda>col. col \<notin> set (columns t)) required_cols_datefilter)
          = set required_cols_datefilter - set (columns t))
   \<and> (\<not> set required_cols_drought \<subseteq> set (columns t) \<longrightarrow>
      calculate_drought_answer_percentages (Some t)
        = Exit1 (MissingColumns
                   (filter (\<lambda>col. col \<notin> set (columns t)) required_cols_drought))
      \<and> filter (\<lambda>col. col \<notin> set (columns t)) required_cols_drought \<noteq> []
      \<and> set (filter (\<lambda>col. col \<notin> set (columns t)) required_cols_drought)
          = set required_cols_drought - set (columns t))"
proof (intro conjI impI)
  assume a: "\<not> set required_cols_datefilter \<subseteq> set (columns t)"
  show "process_and_output_percentages is_number to_datetime (Some t) start_date
        = Exit1 (MissingColumns
                   (filter (\<lambda>col. col \<notin> set (columns t)) required_cols_datefilter))"
    using not_all_present [OF a] by (simp add: process_and_output_percentages_def)
  show "filter (\<lambda>col. col \<notin> set (columns t)) required_cols_datefilter \<noteq> []"
    by (rule absent_required_nonempty [OF a])
next
  assume a: "\<not> set required_cols_drought \<subseteq> set (columns t)"
  show "calculate_drought_answer_percentages (Some t)
        = Exit1 (MissingColumns
                   (filter (\<lambda>col. col \<notin> set (columns t)) required_cols_drought))"
    using not_all_present [OF a] by (simp add: calculate_drought_answer_percentages_def)
  show "filter (\<lambda>col. col \<notin> set (columns t)) required_cols_drought \<noteq> []"
    by (rule absent_required_nonempty [OF a])
qed auto

text \<open>
  A table with only the question, answer and created_at columns: the date-filter script
  names hashed_user_id and session_id, the per-user script names hashed_user_id.
\<close>

theorem missing_columns_abort_witness:
  "process_and_output_percentages digits_only parse_2026_01_02
      (Some \<lparr>columns = [''question'', ''answer'', ''created_at''], rows = []\<rparr>) None
     = Exit1 (MissingColumns [''hashed_user_id'', ''session_id''])
   \<and> calculate_drought_answer_percentages
      (Some \<lparr>columns = [''question'', ''answer'', ''created_at''], rows = []\<rparr>)
     = Exit1 (MissingColumns [''hashed_user_id''])"
proof -
  let ?t = "\<lparr>columns = [''question'', ''answer'', ''created_at''], rows = []\<rparr>"
  have h1: "\<not> set required_cols_datefilter \<subseteq> set (columns ?t)"
    by (simp add: required_cols_datefilter_def)
  have h2: "\<not> set required_cols_drought \<subseteq> set (columns ?t)"
    by (simp add: required_cols_drought_def)
  have e1: "filter (\<lambda>col. col \<notin> set (columns ?t)) required_cols_datefilter
              = [''hashed_user_id'', ''session_id'']"
    by (simp add: required_cols_datefilter_def)
  have e2: "filter (\<lambda>col. col \<notin> set (columns ?t)) required_cols_drought = [''hashed_user_id'']"
    by (simp add: required_cols_drought_def)
  from missing_columns_abort [of ?t digits_only parse_2026_01_02 None] h1 h2 show ?thesis
    unfolding e1 e2 by blast
qed
section \<open>Time window\<close>

lemma filter_timeframe_in_window:
  "start_ts \<noteq> None \<or> end_ts \<noteq> None \<Longrightarrow>
     filter_timeframe start_ts end_ts df = filter (in_window start_ts end_ts) df"
  by (cases start_ts; cases end_ts)
     (auto simp: filter_timeframe_def in_window_def intro!: filter_cong split: option.splits)

lemma filter_timeframe_excludes:
  "created_at r = Some ts \<Longrightarrow> ts < s \<Longrightarrow> r \<notin> set (filter_timeframe (Some s) end_ts df)"
  by (simp add: filter_timeframe_in_window in_window_def)

lemma dropna_start_in_window:
  "filter (\<lambda>r. case created_at r of None \<Rightarrow> False | Some ts \<Rightarrow> d \<le> ts)
      (filter (\<lambda>r. created_at r \<noteq> None) df) = filter (in_window (Some d) None) df"
  by (auto simp: in_window_def intro!: filter_cong split: option.splits)

lemma tz_aware_column_dropna:
  "tz_aware_column (filter (\<lambda>r. created_at r \<noteq> None) df) = tz_aware_column df"
  by (auto simp: tz_aware_column_def list_ex_iff)

lemma all_present:
  "set required \<subseteq> set cols \<Longrightarrow> list_all (\<lambda>col. col \<in> set cols) required"
  by (auto simp: list_all_iff)

text \<open>
  processEvacuate.py parses the column and both bounds with \<open>utc=True\<close>, so they always
  compare: it computes on exactly the rows of the window.
\<close>

lemma process_data_window:
  assumes "start_time \<noteq> []" and "to_datetime start_time = Some s"
    and "parse_bound to_datetime end_time = Inr end_ts"
  shows "process_data to_datetime today df False (Some start_time) end_time
          = (if filter (in_window (Some s) end_ts) df = [] then NoData
             else Merged (extract_and_merge (filter (in_window (Some s) end_ts) df)))"
  using assms by (simp add: process_data_def parse_bound_def filter_timeframe_in_window)

text \<open>
  The date-filter script: when the start date and the created_at column are of one
  kind it reports on exactly the rows at or after the start; when they are not, it ends
  with the error exit.
\<close>

lemma datefilter_window:
  assumes "set required_cols_datefilter \<subseteq> set (columns t)"
    and "start_time \<noteq> []" and "to_datetime start_time = Some d"
    and "tz_aware_column (rows t) = tz_aware d"
  shows "process_and_output_percentages is_number to_datetime (Some t) (Some start_time)
          = (if filter (in_window (Some (instant d)) None) (rows t) = []
             then Exit0 [Line (msg_no_data_after start_time)]
             else Exit0 (report_sections (answer_is_text is_number (rows t))
                           (filter (in_window (Some (instant d)) None) (rows t))))"
  using assms all_present [OF assms(1)]
  unfolding process_and_output_percentages_def Let_def dropna_start_in_window
    tz_aware_column_dropna
  by simp

lemma datefilter_tz_mismatch:
  assumes "set required_cols_datefilter \<subseteq> set (columns t)"
    and "start_time \<noteq> []" and "to_datetime start_time = Some d"
    and "tz_aware_column (rows t) \<noteq> tz_aware d"
  shows "process_and_output_percentages is_number to_datetime (Some t) (Some start_time)
          = Exit1 TypeError"
  using assms all_present [OF assms(1)]
  unfolding process_and_output_percentages_def Let_def tz_aware_column_dropna
  by simp

text \<open>
  Claim C5. The time-window filter keeps exactly the rows whose created_at lies in the
  closed interval of the bounds given; a start of 2026-01-02 excludes a row stamped
  2026-01-01T23:59:59Z (second 1767311999, one before the start's 1767312000).
  processEvacuate.py does so: on that row it is left with no data. The date-filter
  script does not: it parses the Z-stamped column as tz-aware and the start date
  2026-01-02 as tz-naive, the comparison of the two raises, and the run ends with the
  error exit instead of filtering.
\<close>

theorem start_date_tz_mismatch:
  "process_and_output_percentages digits_only parse_2026_01_02
     (Some \<lparr>columns = required_cols_datefilter,
            rows = [survey_row_utc ''h1'' ''s1'' ''Now, drought?'' (Some ''A'')
                      (Some 1767311999)]\<rparr>)
     (Some ''2026-01-02'')
     = Exit1 TypeError
   \<and> process_data parse_2026_01_02_utc 0
       [game_row ''u1'' ''player_select'' ''Farmer'' (Some 1767311999)]
       False (Some ''2026-01-02'') None
     = NoData"
  by code_simp
section \<open>Empty input\<close>

lemma aggregated_nil [simp]: "calculate_aggregated_answer_percentages [] prefix = []"
  by (simp add: calculate_aggregated_answer_percentages_def)

lemma sessions_nil [simp]: "sessions_with_2009_answer answer_text [] = []"
  by (simp add: sessions_with_2009_answer_def unique_def)

lemma report_sections_nil:
  "report_sections answer_text [] =
     [Line hdr_all_data, Line msg_no_now_full, Line '''',
      Line hdr_first_2009, Line msg_no_first, Line '''',
      Line hdr_filtered, Line msg_no_sessions, Line msg_no_filtered, Line '''']"
  by (simp add: report_sections_def overall_now_section_def first_2009_section_def
        conditional_section_def)

text \<open>
  Claim C7 says that an input that parses to no rows aborts with exit status 1 unless a
  date filter caused the emptiness. A CSV with the five required columns in its header
  and no rows, read without a date filter, does not abort: the date-filter script prints
  its three no-result lines and ends with status 0, and \<open>process_data\<close> of
  processEvacuate.py prints its no-data line and returns \<open>None\<close>.
\<close>

theorem header_only_input_counterexample:
  "rows \<lparr>columns = required_cols_datefilter, rows = []\<rparr> = []
   \<and> process_and_output_percentages (\<lambda>s. False) (\<lambda>s. None)
        (Some \<lparr>columns = required_cols_datefilter, rows = []\<rparr>) None
       = Exit0 [Line hdr_all_data, Line msg_no_now_full, Line '''',
                Line hdr_first_2009, Line msg_no_first, Line '''',
                Line hdr_filtered, Line msg_no_sessions, Line msg_no_filtered, Line '''']
   \<and> process_data (\<lambda>s. None) 0 [] False None None = NoData"
  by (simp add: process_and_output_percentages_def report_sections_nil list_all_iff
        process_data_def parse_bound_def filter_timeframe_def)

text \<open>
  Claim C7, amended. Input with nothing to parse (\<open>read_csv\<close> raises
  \<open>EmptyDataError\<close>) aborts with exit status 1. Input that parses to a table with
  the required columns but leaves no row with a usable timestamp does not abort: without
  a start date the date-filter script prints the no-result line of each of its three
  sections and ends with status 0. When a start date that compares with the created_at
  column (both tz-aware or both tz-naive) leaves no row, the script prints the no-data
  line alone and ends with status 0. \<open>process_data\<close> of processEvacuate.py returns
  \<open>None\<close> after its no-data line whenever no row is left, with or without a time
  filter.
\<close>

theorem empty_input_outcomes:
  "process_and_output_percentages is_number to_datetime None start_date = Exit1 EmptyDataError
   \<and> calculate_drought_answer_percentages None = Exit1 EmptyDataError
   \<and> (set required_cols_datefilter \<subseteq> set (columns t)
        \<and> filter (\<lambda>r. created_at r \<noteq> None) (rows t) = []
        \<and> (start_date = None \<or> start_date = Some []) \<longrightarrow>
      process_and_output_percentages is_number to_datetime (Some t) start_date
        = Exit0 [Line hdr_all_data, Line msg_no_now_full, Line '''',
                 Line hdr_first_2009, Line msg_no_first, Line '''',
                 Line hdr_filtered, Line msg_no_sessions, Line msg_no_filtered, Line ''''])
   \<and> (set required_cols_datefilter \<subseteq> set (columns t)
        \<and> s \<noteq> [] \<and> to_datetime s = Some d
        \<and> tz_aware_column (rows t) = tz_aware d
        \<and> filter (in_window (Some (instant d)) None) (rows t) = [] \<longrightarrow>
      process_and_output_percentages is_number to_datetime (Some t) (Some s)
        = Exit0 [Line (msg_no_data_after s)])
   \<and> (parse_bound to_datetime_utc start_time = Inr start_ts
        \<and> parse_bound to_datetime_utc end_time = Inr end_ts
        \<and> filter_timeframe start_ts end_ts (if only_today then filter_today today df else df) = [] \<longrightarrow>
      process_data to_datetime_utc today df only_today start_time end_time = NoData)"
proof (intro conjI impI)
  show "process_and_output_percentages is_number to_datetime None start_date
          = Exit1 EmptyDataError"
    by (simp add: process_and_output_percentages_def)
  show "calculate_drought_answer_percentages None = Exit1 EmptyDataError"
    by (simp add: calculate_drought_answer_percentages_def)
next
  assume a: "set required_cols_datefilter \<subseteq> set (columns t)
        \<and> filter (\<lambda>r. created_at r \<noteq> None) (rows t) = []
        \<and> (start_date = None \<or> start_date = Some [])"
  then have p: "list_all (\<lambda>col. col \<in> set (columns t)) required_cols_datefilter"
    by (simp add: all_present)
  from a have e: "filter (\<lambda>r. \<exists>y. created_at r = Some y) (rows t) = []" by simp
  from a have "start_date = None \<or> start_date = Some []" by simp
  then show "process_and_output_percentages is_number to_datetime (Some t) start_date
        = Exit0 [Line hdr_all_data, Line msg_no_now_full, Line '''',
                 Line hdr_first_2009, Line msg_no_first, Line '''',
                 Line hdr_filtered, Line msg_no_sessions, Line msg_no_filtered, Line '''']"
    using p by (auto simp: process_and_output_percentages_def e report_sections_nil)
next
  assume a: "set required_cols_datefilter \<subseteq> set (columns t)
        \<and> s \<noteq> [] \<and> to_datetime s = Some d
        \<and> tz_aware_column (rows t) = tz_aware d
        \<and> filter (in_window (Some (instant d)) None) (rows t) = []"
  then have "process_and_output_percentages is_number to_datetime (Some t) (Some s)
          = (if filter (in_window (Some (instant d)) None) (rows t) = []
             then Exit0 [Line (msg_no_data_after s)]
             else Exit0 (report_sections (answer_is_text is_number (rows t))
                           (filter (in_window (Some (instant d)) None) (rows t))))"
    by (intro datefilter_window) simp_all
  with a show "process_and_output_percentages is_number to_datetime (Some t) (Some s)
        = Exit0 [Line (msg_no_data_after s)]"
    by simp
next
  assume "parse_bound to_datetime_utc start_time = Inr start_ts
        \<and> parse_bound to_datetime_utc end_time = Inr end_ts
        \<and> filter_timeframe start_ts end_ts (if only_today then filter_today today df else df) = []"
  then show "process_data to_datetime_utc today df only_today start_time end_time = NoData"
    by (simp add: process_data_def)
qed

text \<open>
  One row without a timestamp: the three no-result lines without a start date, the
  no-data line with start date 2026-01-02; one game row before the start: no data.
\<close>

theorem empty_input_outcomes_witness:
  "process_and_output_percentages digits_only parse_2026_01_02
      (Some \<lparr>columns = required_cols_datefilter,
             rows = [survey_row ''h1'' ''s1'' ''Now, drought?'' (Some ''A'') None]\<rparr>) None
     = Exit0 [Line hdr_all_data, Line msg_no_now_full, Line '''',
              Line hdr_first_2009, Line msg_no_first, Line '''',
              Line hdr_filtered, Line msg_no_sessions, Line msg_no_filtered, Line '''']
   \<and> process_and_output_percentages digits_only parse_2026_01_02
      (Some \<lparr>columns = required_cols_datefilter,
             rows = [survey_row ''h1'' ''s1'' ''Now, drought?'' (Some ''A'') None]\<rparr>)
      (Some ''2026-01-02'')
     = Exit0 [Line (msg_no_data_after ''2026-01-02'')]
   \<and> process_data parse_2026_01_02_utc 0
        [game_row ''u1'' ''player_select'' ''Farmer'' (Some 1767311999)]
        False (Some ''2026-01-02'') None
     = NoData"
proof -
  let ?t = "\<lparr>columns = required_cols_datefilter,
             rows = [survey_row ''h1'' ''s1'' ''Now, drought?'' (Some ''A'') None]\<rparr>"
  let ?df = "[game_row ''u1'' ''player_select'' ''Farmer'' (Some 1767311999)]"
  have h1: "set required_cols_datefilter \<subseteq> set (columns ?t)
        \<and> filter (\<lambda>r. created_at r \<noteq> None) (rows ?t) = []
        \<and> ((None::string option) = None \<or> (None::string option) = Some [])"
    by (simp add: survey_row_def)
  have h2: "set required_cols_datefilter \<subseteq> set (columns ?t)
        \<and> ''2026-01-02'' \<noteq> [] \<and> parse_2026_01_02 ''2026-01-02'' = Some (Naive 1767312000)
        \<and> tz_aware_column (rows ?t) = tz_aware (Naive 1767312000)
        \<and> filter (in_window (Some (instant (Naive 1767312000))) None) (rows ?t) = []"
    by (simp add: survey_row_def in_window_def parse_2026_01_02_def tz_aware_column_def)
  have h3: "parse_bound parse_2026_01_02_utc (Some ''2026-01-02'') = Inr (Some 1767312000)
        \<and> parse_bound parse_2026_01_02_utc None = Inr None
        \<and> filter_timeframe (Some 1767312000) None (if False then filter_today 0 ?df else ?df) = []"
    by (simp add: parse_bound_def filter_timeframe_def game_row_def parse_2026_01_02_utc_def)
  note inst = empty_input_outcomes [where t = ?t and to_datetime = parse_2026_01_02
       and is_number = digits_only and s = "''2026-01-02''"
       and d = "Naive 1767312000" and start_time = "Some ''2026-01-02''" and end_time = None
       and start_ts = "Some 1767312000" and end_ts = None and only_today = False and today = 0
       and df = ?df and start_date = None and to_datetime_utc = parse_2026_01_02_utc]
  from inst h1 h2 h3 show ?thesis by blast
qed
section \<open>Conditional breakdown\<close>

lemma set_unique [simp]: "set (unique xs) = set xs"
  by (simp add: unique_def)

text \<open>
  The sessions the condition selects: those of the rows whose question starts with First
  and whose answer compares equal to the string 2009, which no row does when the answer
  column was read as numbers.
\<close>

lemma sessions_with_2009_answer_set:
  "set (sessions_with_2009_answer answer_text df)
     = session_id ` {r \<in> set df. startswith (astype_str (question r)) ''First''
                                 \<and> answer_text \<and> answer r = Some ''2009''}"
  by (auto simp: sessions_with_2009_answer_def answer_equals_def)

lemma sessions_numeric_column [simp]: "sessions_with_2009_answer False df = []"
  by (simp add: sessions_with_2009_answer_def answer_equals_def unique_def)

lemma conditional_section_no_sessions:
  "sessions_with_2009_answer answer_text df = [] \<Longrightarrow>
     conditional_section answer_text df
       = [Line hdr_filtered, Line msg_no_sessions, Line msg_no_filtered, Line '''']"
  by (simp add: conditional_section_def)

lemma conditional_section_sessions:
  "sessions_with_2009_answer answer_text df \<noteq> [] \<Longrightarrow>
     conditional_section answer_text df
       = [Line hdr_filtered,
          if calculate_aggregated_answer_percentages
               (filter (\<lambda>r. session_id r \<in> set (sessions_with_2009_answer answer_text df)) df)
               ''Now,'' \<noteq> []
          then Csv (calculate_aggregated_answer_percentages
                      (filter (\<lambda>r. session_id r \<in> set (sessions_with_2009_answer answer_text df))
                         df)
                      ''Now,'')
          else Line msg_no_now_filtered,
          Line '''']"
  by (simp add: conditional_section_def Let_def)

lemma no_empty_csv_overall: "Csv [] \<notin> set (overall_now_section df)"
  by (simp add: overall_now_section_def Let_def)

lemma no_empty_csv_first: "Csv [] \<notin> set (first_2009_section answer_text df)"
  by (simp add: first_2009_section_def Let_def)

lemma no_empty_csv_conditional: "Csv [] \<notin> set (conditional_section answer_text df)"
  by (simp add: conditional_section_def Let_def)

lemma no_empty_csv_report: "Csv [] \<notin> set (report_sections answer_text df)"
  by (simp add: report_sections_def no_empty_csv_overall no_empty_csv_first
        no_empty_csv_conditional)

lemma no_empty_csv_outcome:
  "process_and_output_percentages is_number to_datetime stdin start_date = Exit0 items
     \<Longrightarrow> Csv [] \<notin> set items"
  by (auto simp: process_and_output_percentages_def Let_def no_empty_csv_report
        split: option.splits if_splits)

text \<open>
  Claim C4. The conditional breakdown computes the sessions in which a row whose
  question starts with First has the answer 2009, reports that no sessions were found
  when there is none, and otherwise prints the breakdown of the Now, answers of those
  sessions. It never prints an empty table (\<open>no_empty_csv_outcome\<close>), and on an answer
  column read as text it does what the claim says (\<open>sessions_with_2009_answer_set\<close>,
  \<open>conditional_section_sessions\<close>). But when every answer in the file is a number the
  column is read as numbers, the comparison with the string 2009 is false in every row,
  and the script reports that no session answered 2009 although session s1 did; the
  share of 2009 answers it prints is 0 for the same reason. With one answer that is not
  a number in the file, the same session is found and its table printed.
\<close>

theorem numeric_answers_no_sessions:
  "answer_is_text digits_only
     [survey_row ''h1'' ''s1'' ''First year of drought?'' (Some ''2009'') (Some 1767225610),
      survey_row ''h1'' ''s1'' ''Now, rate the drought'' (Some ''3'') (Some 1767225611)]
     = False
   \<and> process_and_output_percentages digits_only parse_2026_01_02
       (Some \<lparr>columns = required_cols_datefilter,
              rows = [survey_row ''h1'' ''s1'' ''First year of drought?'' (Some ''2009'')
                        (Some 1767225610),
                      survey_row ''h1'' ''s1'' ''Now, rate the drought'' (Some ''3'')
                        (Some 1767225611)]\<rparr>)
       None
     = Exit0 [Line hdr_all_data, Csv [(Some ''3'', 100)], Line '''',
              Line hdr_first_2009, Percent2009 0, Line '''',
              Line hdr_filtered, Line msg_no_sessions, Line msg_no_filtered, Line '''']
   \<and> process_and_output_percentages digits_only parse_2026_01_02
       (Some \<lparr>columns = required_cols_datefilter,
              rows = [survey_row ''h1'' ''s1'' ''First year of drought?'' (Some ''2009'')
                        (Some 1767225610),
                      survey_row ''h1'' ''s1'' ''Now, rate the drought'' (Some ''severe'')
                        (Some 1767225611)]\<rparr>)
       None
     = Exit0 [Line hdr_all_data, Csv [(Some ''severe'', 100)], Line '''',
              Line hdr_first_2009, Percent2009 100, Line '''',
              Line hdr_filtered, Csv [(Some ''severe'', 100)], Line '''']"
  by code_simp

section \<open>Latest-response extraction and the inner join\<close>

lemma drop_duplicates_last_subset: "set (drop_duplicates_last key xs) \<subseteq> set xs"
  by (induction xs) auto

lemma drop_duplicates_last_keys:
  "set (map key (drop_duplicates_last key xs)) = set (map key xs)"
  by (induction xs) auto

lemma drop_duplicates_last_distinct: "distinct (map key (drop_duplicates_last key xs))"
proof (induction xs)
  case Nil
  show ?case by simp
next
  case (Cons x xs)
  have "key ` set (drop_duplicates_last key xs) = key ` set xs"
    using drop_duplicates_last_keys [of key xs] by simp
  with Cons show ?case by auto
qed

lemma drop_duplicates_last_id:
  "distinct (map key xs) \<Longrightarrow> drop_duplicates_last key xs = xs"
  by (induction xs) auto

lemma drop_duplicates_last_sorted:
  "sorted (map f xs) \<Longrightarrow> sorted (map f (drop_duplicates_last key xs))"
proof (induction xs)
  case Nil
  show ?case by simp
next
  case (Cons x xs)
  then have "\<forall>y \<in> set (drop_duplicates_last key xs). f x \<le> f y"
    using drop_duplicates_last_subset [of key xs] by auto
  with Cons show ?case by auto
qed

lemma latest_rows_subset: "set (latest_rows grp df) \<subseteq> set (filter (step_isin grp) df)"
  using drop_duplicates_last_subset [of user_id "sort_values_created_at (filter (step_isin grp) df)"]
  by (simp add: latest_rows_def sort_values_created_at_def)

lemma latest_rows_users:
  "user_id ` set (latest_rows grp df) = user_id ` set (filter (step_isin grp) df)"
  using drop_duplicates_last_keys [of user_id "sort_values_created_at (filter (step_isin grp) df)"]
  by (simp add: latest_rows_def sort_values_created_at_def)

lemma latest_rows_distinct: "distinct (map user_id (latest_rows grp df))"
  by (simp add: latest_rows_def drop_duplicates_last_distinct)

lemma latest_rows_sorted:
  "sorted (map (\<lambda>r. na_last (created_at r)) (latest_rows grp df))"
  by (simp add: latest_rows_def sort_values_created_at_def drop_duplicates_last_sorted)

lemma latest_answers_users:
  "fst ` set (latest_answers grp df) = user_id ` set (filter (step_isin grp) df)"
proof -
  have "fst ` set (latest_answers grp df) = user_id ` set (latest_rows grp df)"
    by (force simp: latest_answers_def)
  then show ?thesis by (simp only: latest_rows_users)
qed

lemma latest_answers_distinct: "distinct (map fst (latest_answers grp df))"
proof -
  have "map fst (latest_answers grp df) = map user_id (latest_rows grp df)"
    by (simp add: latest_answers_def)
  then show ?thesis by (simp only: latest_rows_distinct)
qed

lemma filter_standardize:
  "filter (step_isin grp) (standardize df) = standardize (filter (step_isin grp) df)"
  by (induction df) (auto simp: standardize_def step_isin_def)

lemma map_user_id_standardize: "map user_id (standardize df) = map user_id df"
  by (simp add: standardize_def)

lemma standardize_users:
  "user_id ` set (filter (step_isin grp) (standardize df))
     = user_id ` set (filter (step_isin grp) df)"
proof -
  have "user_id ` set (standardize (filter (step_isin grp) df))
          = set (map user_id (standardize (filter (step_isin grp) df)))"
    by simp
  also have "\<dots> = user_id ` set (filter (step_isin grp) df)"
    by (simp only: map_user_id_standardize set_map)
  finally show ?thesis by (simp only: filter_standardize)
qed

lemma merge_inner_users:
  "fst ` set (merge_inner l r) = fst ` set l \<inter> fst ` set r"
  by (force simp: merge_inner_def)

lemma filter_key_singleton:
  "distinct (map fst r) \<Longrightarrow> length (filter (\<lambda>(u', b). u' = u) r) \<le> 1"
proof (induction r)
  case Nil
  show ?case by simp
next
  case (Cons x r)
  obtain u' b where x: "x = (u', b)" by (cases x)
  show ?case
  proof (cases "u' = u")
    case True
    with Cons x have "u \<notin> fst ` set r" by simp
    then have "filter (\<lambda>(u', b). u' = u) r = []"
      by (force simp: filter_empty_conv)
    with True x show ?thesis by simp
  next
    case False
    with Cons x show ?thesis by simp
  qed
qed

lemma merge_inner_distinct:
  assumes "distinct (map fst l)" and "distinct (map fst r)"
  shows "distinct (map fst (merge_inner l r))"
  using assms(1)
proof (induction l)
  case Nil
  show ?case by (simp add: merge_inner_def)
next
  case (Cons x l)
  obtain u a where x: "x = (u, a)" by (cases x)
  let ?m = "filter (\<lambda>(u', b). u' = u) r"
  have split: "merge_inner (x # l) r = map (\<lambda>(u', b). (u, a, b)) ?m @ merge_inner l r"
    by (simp add: merge_inner_def x)
  have len: "length ?m \<le> 1" by (rule filter_key_singleton [OF assms(2)])
  have d1: "distinct (map fst (map (\<lambda>(u', b). (u, a, b)) ?m))"
  proof (cases ?m)
    case Nil
    then show ?thesis by simp
  next
    case (Cons y ys)
    with len have "ys = []" by simp
    with Cons show ?thesis by (simp add: case_prod_beta)
  qed
  have d2: "distinct (map fst (merge_inner l r))" using Cons by simp
  have "u \<notin> fst ` set l" using Cons.prems x by auto
  then have "u \<notin> fst ` set (merge_inner l r)" by (simp add: merge_inner_users)
  moreover have "fst ` set (map (\<lambda>(u', b). (u, a, b)) ?m) \<subseteq> {u}" by auto
  ultimately have d3: "set (map fst (map (\<lambda>(u', b). (u, a, b)) ?m))
                         \<inter> set (map fst (merge_inner l r)) = {}"
    by force
  from d1 d2 d3 show ?case unfolding split by (simp only: map_append distinct_append)
qed

text \<open>
  Claim C3. The merged result of the player-type extraction and the evacuation-choice
  extraction holds exactly the user ids present in both: the user ids of the inner join
  are the intersection of the user ids of its two inputs, so the merged frame's users
  are those of the two extractions, which are the users with a row in the player-type
  group and a row in the evacuation-choice group of the input. Each such user appears
  once.
\<close>

theorem inner_join_users:
  "fst ` set (merge_inner player_types evac_choices)
     = fst ` set player_types \<inter> fst ` set evac_choices
   \<and> fst ` set (extract_and_merge df)
     = fst ` set (latest_answers [''player_select'', ''playerselect''] (standardize df))
       \<inter> fst ` set (latest_answers [''evacuate_select''] (standardize df))
   \<and> fst ` set (extract_and_merge df)
     = user_id ` set (filter (step_isin [''player_select'', ''playerselect'']) df)
       \<inter> user_id ` set (filter (step_isin [''evacuate_select'']) df)
   \<and> distinct (map fst (extract_and_merge df))"
proof (intro conjI)
  show "fst ` set (merge_inner player_types evac_choices)
     = fst ` set player_types \<inter> fst ` set evac_choices"
    by (rule merge_inner_users)
  show 2: "fst ` set (extract_and_merge df)
     = fst ` set (latest_answers [''player_select'', ''playerselect''] (standardize df))
       \<inter> fst ` set (latest_answers [''evacuate_select''] (standardize df))"
    by (simp add: extract_and_merge_def Let_def merge_inner_users)
  show "fst ` set (extract_and_merge df)
     = user_id ` set (filter (step_isin [''player_select'', ''playerselect'']) df)
       \<inter> user_id ` set (filter (step_isin [''evacuate_select'']) df)"
    by (simp only: 2 latest_answers_users standardize_users)
  show "distinct (map fst (extract_and_merge df))"
    by (simp add: extract_and_merge_def Let_def merge_inner_distinct latest_answers_distinct)
qed

text \<open>
  u1 answered both questions, u2 only the player type, u3 only the evacuation choice:
  the merged frame is the one row of u1.
\<close>

theorem inner_join_users_witness:
  "extract_and_merge
     [game_row ''u1'' ''player_select'' ''Pet Owner'' (Some 1),
      game_row ''u1'' ''evacuate_select'' ''Yep, evacuate!'' (Some 2),
      game_row ''u2'' ''player_select'' ''Farmer'' (Some 3),
      game_row ''u3'' ''evacuate_select'' ''Heck no! dont evacuate'' (Some 4)]
     = [(Some ''u1'', Some ''Pet Owner'', Some ''Yep, evacuate!'')]
   \<and> fst ` set (extract_and_merge
     [game_row ''u1'' ''player_select'' ''Pet Owner'' (Some 1),
      game_row ''u1'' ''evacuate_select'' ''Yep, evacuate!'' (Some 2),
      game_row ''u2'' ''player_select'' ''Farmer'' (Some 3),
      game_row ''u3'' ''evacuate_select'' ''Heck no! dont evacuate'' (Some 4)])
     = {Some ''u1'', Some ''u2''} \<inter> {Some ''u1'', Some ''u3''}"
proof -
  let ?df = "[game_row ''u1'' ''player_select'' ''Pet Owner'' (Some 1),
      game_row ''u1'' ''evacuate_select'' ''Yep, evacuate!'' (Some 2),
      game_row ''u2'' ''player_select'' ''Farmer'' (Some 3),
      game_row ''u3'' ''evacuate_select'' ''Heck no! dont evacuate'' (Some 4)]"
  have e: "extract_and_merge ?df = [(Some ''u1'', Some ''Pet Owner'', Some ''Yep, evacuate!'')]"
    by code_simp
  have p: "user_id ` set (filter (step_isin [''player_select'', ''playerselect'']) ?df)
             = {Some ''u1'', Some ''u2''}"
    by (simp add: step_isin_def game_row_def)
  have q: "user_id ` set (filter (step_isin [''evacuate_select'']) ?df)
             = {Some ''u1'', Some ''u3''}"
    by (simp add: step_isin_def game_row_def)
  from inner_join_users [where df = ?df]
  have "fst ` set (extract_and_merge ?df)
          = user_id ` set (filter (step_isin [''player_select'', ''playerselect'']) ?df)
            \<inter> user_id ` set (filter (step_isin [''evacuate_select'']) ?df)"
    by blast
  then have "fst ` set (extract_and_merge ?df)
               = {Some ''u1'', Some ''u2''} \<inter> {Some ''u1'', Some ''u3''}"
    by (simp only: p q)
  with e show ?thesis by blast
qed

section \<open>Latest response: idempotence and the kept row\<close>

lemma latest_rows_fixed:
  assumes "\<forall>r \<in> set rs. step_isin grp r"
    and "sorted (map (\<lambda>r. na_last (created_at r)) rs)"
    and "distinct (map user_id rs)"
  shows "latest_rows grp rs = rs"
proof -
  from assms(1) have "filter (step_isin grp) rs = rs"
    by (simp add: filter_id_conv)
  moreover from assms(2) have "sort_values_created_at rs = rs"
    by (simp add: sort_values_created_at_def sort_key_id_if_sorted)
  moreover from assms(3) have "drop_duplicates_last user_id rs = rs"
    by (rule drop_duplicates_last_id)
  ultimately show ?thesis by (simp add: latest_rows_def)
qed

text \<open>
  Idempotence does not hang on how the sort orders equal timestamps: in whatever order
  the rows of an extraction's output are put, keeping each user's last row keeps them
  all.
\<close>

lemma drop_duplicates_last_any_order:
  assumes "distinct (map key xs)" and "mset ys = mset xs"
  shows "set (drop_duplicates_last key ys) = set xs"
proof -
  from assms(2) have "mset (map key ys) = mset (map key xs)" by simp
  then have "distinct (map key ys) = distinct (map key xs)"
    by (rule mset_eq_imp_distinct_iff)
  with assms(1) have "drop_duplicates_last key ys = ys"
    by (simp add: drop_duplicates_last_id)
  moreover from assms(2) have "set ys = set xs" by (rule mset_eq_setD)
  ultimately show ?thesis by simp
qed

lemma latest_rows_any_order:
  "mset ys = mset (latest_rows grp df) \<Longrightarrow>
     set (drop_duplicates_last user_id (filter (step_isin grp) ys)) = set (latest_rows grp df)"
proof -
  assume p: "mset ys = mset (latest_rows grp df)"
  then have s: "set ys = set (latest_rows grp df)" by (rule mset_eq_setD)
  have "\<forall>r \<in> set ys. step_isin grp r"
    unfolding s using latest_rows_subset [of grp df] by auto
  then have "filter (step_isin grp) ys = ys" by (simp add: filter_id_conv)
  with drop_duplicates_last_any_order [OF latest_rows_distinct p] show ?thesis by simp
qed

text \<open>
  Claim C9. Latest-response extraction is idempotent: applied to its own output, with
  the same question group, it gives that output back unchanged, so the projected
  (user_id, answer) pairs are the same too; the output has one row per user.
\<close>

theorem latest_rows_idempotent:
  "latest_rows grp (latest_rows grp df) = latest_rows grp df
   \<and> latest_answers grp (latest_rows grp df) = latest_answers grp df
   \<and> distinct (map user_id (latest_rows grp df))"
proof -
  have "\<forall>r \<in> set (latest_rows grp df). step_isin grp r"
    using latest_rows_subset [of grp df] by auto
  then have "latest_rows grp (latest_rows grp df) = latest_rows grp df"
    by (rule latest_rows_fixed) (rule latest_rows_sorted latest_rows_distinct)+
  then show ?thesis by (simp add: latest_answers_def latest_rows_distinct)
qed

text \<open>
  u1 answered the player question twice at the same second and u2 once; the extraction
  keeps u2's row and the later of u1's rows, and extracting again changes nothing.
\<close>

theorem latest_rows_idempotent_witness:
  "latest_rows [''player_select'', ''playerselect'']
     [game_row ''u1'' ''player_select'' ''Farmer'' (Some 5),
      game_row ''u2'' ''playerselect'' ''Pet Owner'' (Some 3),
      game_row ''u1'' ''player_select'' ''Tourist'' (Some 5),
      game_row ''u1'' ''evacuate_select'' ''Yep, evacuate!'' (Some 9)]
     = [game_row ''u2'' ''playerselect'' ''Pet Owner'' (Some 3),
        game_row ''u1'' ''player_select'' ''Tourist'' (Some 5)]
   \<and> latest_rows [''player_select'', ''playerselect'']
     [game_row ''u2'' ''playerselect'' ''Pet Owner'' (Some 3),
      game_row ''u1'' ''player_select'' ''Tourist'' (Some 5)]
     = [game_row ''u2'' ''playerselect'' ''Pet Owner'' (Some 3),
        game_row ''u1'' ''player_select'' ''Tourist'' (Some 5)]"
proof -
  let ?df = "[game_row ''u1'' ''player_select'' ''Farmer'' (Some 5),
      game_row ''u2'' ''playerselect'' ''Pet Owner'' (Some 3),
      game_row ''u1'' ''player_select'' ''Tourist'' (Some 5),
      game_row ''u1'' ''evacuate_select'' ''Yep, evacuate!'' (Some 9)]"
  have e: "latest_rows [''player_select'', ''playerselect''] ?df
     = [game_row ''u2'' ''playerselect'' ''Pet Owner'' (Some 3),
        game_row ''u1'' ''player_select'' ''Tourist'' (Some 5)]"
    by code_simp
  from latest_rows_idempotent [where grp = "[''player_select'', ''playerselect'']" and df = ?df]
  have "latest_rows [''player_select'', ''playerselect'']
          (latest_rows [''player_select'', ''playerselect''] ?df)
        = latest_rows [''player_select'', ''playerselect''] ?df"
    by blast
  then show ?thesis unfolding e by (simp add: e)
qed

lemma drop_duplicates_last_is_last:
  "r \<in> set (drop_duplicates_last key xs) \<Longrightarrow> r = last (filter (\<lambda>r'. key r' = key r) xs)"
proof (induction xs)
  case Nil
  then show ?case by simp
next
  case (Cons x xs)
  show ?case
  proof (cases "r \<in> set (drop_duplicates_last key xs)")
    case True
    then have ih: "r = last (filter (\<lambda>r'. key r' = key r) xs)" by (rule Cons.IH)
    from True have "r \<in> set xs" using drop_duplicates_last_subset [of key xs] by auto
    then have ne: "filter (\<lambda>r'. key r' = key r) xs \<noteq> []"
      by (auto simp: filter_empty_conv)
    then show ?thesis using ih by simp
  next
    case False
    with Cons.prems have rx: "r = x" and nk: "key x \<notin> set (map key xs)"
      by (auto split: if_splits)
    then have "filter (\<lambda>r'. key r' = key r) xs = []"
      by (auto simp: filter_empty_conv image_iff)
    with rx show ?thesis by simp
  qed
qed

lemma sorted_le_last:
  "sorted xs \<Longrightarrow> x \<in> set xs \<Longrightarrow> x \<le> last xs"
  by (induction xs) auto

lemma last_filter_same:
  "xs \<noteq> [] \<Longrightarrow> P (last xs) \<Longrightarrow> last (filter P xs) = last xs"
  by (induction xs rule: rev_induct) auto

text \<open>
  The row kept for a user: it is one of the user's rows in the group; no row of the
  user in the group has a later sort key; and among the user's rows with that same sort
  key it is the last one in input order. The sort key is the timestamp, with a missing
  timestamp after every present one.
\<close>

lemma latest_rows_kept:
  assumes "r \<in> set (latest_rows grp df)"
  defines "zs \<equiv> filter (\<lambda>r'. user_id r' = user_id r) (filter (step_isin grp) df)"
  shows "r \<in> set zs"
    and "\<forall>r' \<in> set zs. na_last (created_at r') \<le> na_last (created_at r)"
    and "r = last (filter (\<lambda>r'. created_at r' = created_at r) zs)"
proof -
  let ?f = "\<lambda>r. na_last (created_at r)"
  from assms(1) show in_zs: "r \<in> set zs"
    using latest_rows_subset [of grp df] by (auto simp: zs_def)
  then have ne: "sort_key ?f zs \<noteq> []" by (metis empty_iff empty_set set_sort)
  from assms(1) have "r = last (filter (\<lambda>r'. user_id r' = user_id r)
                            (sort_key ?f (filter (step_isin grp) df)))"
    unfolding latest_rows_def sort_values_created_at_def by (rule drop_duplicates_last_is_last)
  then have r: "r = last (sort_key ?f zs)" by (simp only: filter_sort zs_def)
  show "\<forall>r' \<in> set zs. ?f r' \<le> ?f r"
  proof
    fix r' assume "r' \<in> set zs"
    then have "?f r' \<in> set (map ?f (sort_key ?f zs))" by simp
    with sorted_sort_key [of ?f zs] have "?f r' \<le> last (map ?f (sort_key ?f zs))" by (rule sorted_le_last)
    with ne r show "?f r' \<le> ?f r" by (simp add: last_map)
  qed
  have inj: "(?f a = ?f b) = (created_at a = created_at b)" for a b :: response
    by (auto simp: na_last_def split: option.splits)
  have "last (filter (\<lambda>y. ?f y = ?f r) (sort_key ?f zs)) = last (sort_key ?f zs)"
    using ne r by (intro last_filter_same) auto
  then have "r = last (filter (\<lambda>y. ?f y = ?f r) zs)"
    using r by (simp only: sort_key_stable)
  then show "r = last (filter (\<lambda>r'. created_at r' = created_at r) zs)"
    by (simp only: inj)
qed

text \<open>When every row of the group is dated, the kept row is a latest one of its user.\<close>

lemma latest_rows_dated:
  assumes "r \<in> set (latest_rows grp df)"
    and "\<forall>r' \<in> set (filter (step_isin grp) df). created_at r' \<noteq> None"
    and "r' \<in> set (filter (step_isin grp) df)" and "user_id r' = user_id r"
  shows "the (created_at r') \<le> the (created_at r)"
proof -
  from assms(1) have "r \<in> set (filter (step_isin grp) df)"
    using latest_rows_subset [of grp df] by auto
  with assms(2) obtain t where t: "created_at r = Some t" by auto
  from assms(2,3) obtain t' where t': "created_at r' = Some t'" by auto
  from assms(3,4) have "r' \<in> set (filter (\<lambda>x. user_id x = user_id r) (filter (step_isin grp) df))"
    by simp
  with latest_rows_kept(2) [OF assms(1)]
  have "na_last (created_at r') \<le> na_last (created_at r)" by blast
  with t t' show ?thesis by (simp add: na_last_def)
qed

text \<open>
  Claim C2. Latest-response extraction produces one row per user that answered within
  the group, the row with the maximum created_at of that user, ties going to the later
  input row. The extraction does give one row per such user, and the row it keeps is
  among those of the user that sort last (\<open>latest_rows_kept\<close>, where the last input
  row among them is the specification's tie order); when all rows of the group are dated
  that is a row of maximal created_at (\<open>latest_rows_dated\<close>). But a row whose created_at cell is empty sorts after every dated row,
  so for a user with such a row the extraction keeps it over the user's dated answers:
  here u1's undated Farmer row wins over the Pet Owner row of 2026-01-02, and the merged
  frame reports Farmer as the player type.
\<close>

theorem latest_rows_missing_timestamp:
  "latest_rows [''player_select'', ''playerselect'']
     [game_row ''u1'' ''player_select'' ''Farmer'' None,
      game_row ''u1'' ''player_select'' ''Pet Owner'' (Some 1767312000),
      game_row ''u1'' ''evacuate_select'' ''Yep, evacuate!'' (Some 1767312060)]
     = [game_row ''u1'' ''player_select'' ''Farmer'' None]
   \<and> process_data_first 0
     [game_row ''u1'' ''player_select'' ''Farmer'' None,
      game_row ''u1'' ''player_select'' ''Pet Owner'' (Some 1767312000),
      game_row ''u1'' ''evacuate_select'' ''Yep, evacuate!'' (Some 1767312060)] False
     = Merged [(Some ''u1'', Some ''Farmer'', Some ''Yep, evacuate!'')]
   \<and> process_data (\<lambda>s. None) 0
     [game_row ''u1'' ''player_select'' ''Farmer'' None,
      game_row ''u1'' ''player_select'' ''Pet Owner'' (Some 1767312000),
      game_row ''u1'' ''evacuate_select'' ''Yep, evacuate!'' (Some 1767312060)] False None None
     = Merged [(Some ''u1'', Some ''Farmer'', Some ''Yep, evacuate!'')]"
  by code_simp

section \<open>Answer normalisation\<close>

lemma replace_petowner_idem [simp]: "replace_petowner (replace_petowner a) = replace_petowner a"
  by (simp add: replace_petowner_def)

lemma replace_petowner_never [simp]: "replace_petowner a \<noteq> Some ''Petowner''"
  by (simp add: replace_petowner_def)

lemma standardize_idem [simp]: "standardize (standardize df) = standardize df"
  by (simp add: standardize_def)

lemma standardize_Nil_iff [simp]: "standardize df = [] \<longleftrightarrow> df = []"
  by (simp add: standardize_def)

lemma standardize_answers: "r \<in> set (standardize df) \<Longrightarrow> answer r \<noteq> Some ''Petowner''"
  by (auto simp: standardize_def)

lemma extract_and_merge_standardize: "extract_and_merge (standardize df) = extract_and_merge df"
  by (simp add: extract_and_merge_def)

lemma filter_today_standardize:
  "filter_today today (standardize df) = standardize (filter_today today df)"
  by (induction df) (auto simp: standardize_def filter_today_def)

lemma filter_timeframe_standardize:
  "filter_timeframe start_ts end_ts (standardize df)
     = standardize (filter_timeframe start_ts end_ts df)"
  by (cases start_ts; cases end_ts)
     (simp_all add: filter_timeframe_def standardize_def filter_map comp_def)

lemma process_data_first_standardize:
  "process_data_first today (standardize df) only_today = process_data_first today df only_today"
  by (simp add: process_data_first_def filter_today_standardize extract_and_merge_standardize)

lemma process_data_standardize:
  "process_data to_datetime today (standardize df) only_today start_time end_time
     = process_data to_datetime today df only_today start_time end_time"
  by (simp add: process_data_def filter_today_standardize filter_timeframe_standardize
        extract_and_merge_standardize Let_def split: sum.splits)

lemma merge_inner_parts:
  "(u, a, b) \<in> set (merge_inner l r) \<Longrightarrow> (u, a) \<in> set l \<and> (u, b) \<in> set r"
  by (auto simp: merge_inner_def)

lemma latest_answers_from_rows:
  "(u, a) \<in> set (latest_answers grp df) \<Longrightarrow> \<exists>r \<in> set df. user_id r = u \<and> answer r = a"
  using latest_rows_subset [of grp df] by (auto simp: latest_answers_def)

lemma extract_and_merge_no_petowner:
  assumes "(u, a, b) \<in> set (extract_and_merge df)"
  shows "a \<noteq> Some ''Petowner'' \<and> b \<noteq> Some ''Petowner''"
proof -
  from assms have "(u, a) \<in> set (latest_answers [''player_select'', ''playerselect''] (standardize df))"
    and "(u, b) \<in> set (latest_answers [''evacuate_select''] (standardize df))"
    by (auto simp: extract_and_merge_def Let_def dest: merge_inner_parts)
  then obtain r r' where "r \<in> set (standardize df)" "answer r = a"
    "r' \<in> set (standardize df)" "answer r' = b"
    by (blast dest: latest_answers_from_rows)
  then show ?thesis by (auto dest: standardize_answers)
qed

text \<open>
  Claim C8. In the evacuation scripts the answer column is normalised (Petowner becomes
  Pet Owner) before the rows are grouped: two datasets that differ only in which of the
  two spellings their answers use give the same extractions, the same merged frame and
  the same result of \<open>process_data\<close> in both scripts, and no player type or evacuation
  choice in a merged frame is the spelling Petowner.
\<close>

theorem normalized_before_grouping:
  "(standardize df = standardize df' \<longrightarrow>
      extract_and_merge df = extract_and_merge df'
      \<and> process_data_first today df only_today = process_data_first today df' only_today
      \<and> process_data to_datetime today df only_today start_time end_time
          = process_data to_datetime today df' only_today start_time end_time)
   \<and> ((u, a, b) \<in> set (extract_and_merge df) \<longrightarrow>
        a \<noteq> Some ''Petowner'' \<and> b \<noteq> Some ''Petowner'')"
proof (intro conjI impI)
  assume e: "standardize df = standardize df'"
  show "extract_and_merge df = extract_and_merge df'"
    using extract_and_merge_standardize [of df] extract_and_merge_standardize [of df'] e
    by simp
  show "process_data_first today df only_today = process_data_first today df' only_today"
    using process_data_first_standardize [of today df only_today]
      process_data_first_standardize [of today df' only_today] e
    by simp
  show "process_data to_datetime today df only_today start_time end_time
          = process_data to_datetime today df' only_today start_time end_time"
    using process_data_standardize [of to_datetime today df only_today start_time end_time]
      process_data_standardize [of to_datetime today df' only_today start_time end_time] e
    by simp
next
  assume "(u, a, b) \<in> set (extract_and_merge df)"
  then show "a \<noteq> Some ''Petowner''" and "b \<noteq> Some ''Petowner''"
    by (auto dest: extract_and_merge_no_petowner)
qed

text \<open>
  The same two rows with the player type spelled Petowner and Pet Owner: one merged
  frame, with the player type Pet Owner.
\<close>

theorem normalized_before_grouping_witness:
  "extract_and_merge
     [game_row ''u1'' ''player_select'' ''Petowner'' (Some 1),
      game_row ''u1'' ''evacuate_select'' ''Yep, evacuate!'' (Some 2)]
   = extract_and_merge
     [game_row ''u1'' ''player_select'' ''Pet Owner'' (Some 1),
      game_row ''u1'' ''evacuate_select'' ''Yep, evacuate!'' (Some 2)]
   \<and> extract_and_merge
     [game_row ''u1'' ''player_select'' ''Petowner'' (Some 1),
      game_row ''u1'' ''evacuate_select'' ''Yep, evacuate!'' (Some 2)]
   = [(Some ''u1'', Some ''Pet Owner'', Some ''Yep, evacuate!'')]
   \<and> Some ''Pet Owner'' \<noteq> Some ''Petowner''"
proof -
  let ?df = "[game_row ''u1'' ''player_select'' ''Petowner'' (Some 1),
      game_row ''u1'' ''evacuate_select'' ''Yep, evacuate!'' (Some 2)]"
  let ?df' = "[game_row ''u1'' ''player_select'' ''Pet Owner'' (Some 1),
      game_row ''u1'' ''evacuate_select'' ''Yep, evacuate!'' (Some 2)]"
  have h: "standardize ?df = standardize ?df'"
    by (simp add: standardize_def game_row_def replace_petowner_def)
  have v: "extract_and_merge ?df = [(Some ''u1'', Some ''Pet Owner'', Some ''Yep, evacuate!'')]"
    by code_simp
  then have m: "(Some ''u1'', Some ''Pet Owner'', Some ''Yep, evacuate!'')
                  \<in> set (extract_and_merge ?df)"
    by simp
  note inst = normalized_before_grouping [where df = ?df and df' = ?df'
      and u = "Some ''u1''" and a = "Some ''Pet Owner''" and b = "Some ''Yep, evacuate!''"]
  from inst h have 1: "extract_and_merge ?df = extract_and_merge ?df'" by blast
  from inst m have 2: "Some ''Pet Owner'' \<noteq> Some ''Petowner''" by blast
  from 1 v 2 show ?thesis by blast
qed

section \<open>Percentage breakdowns\<close>

lemma sum_list_sort_key:
  "sum_list (map g (sort_key f xs)) = sum_list (map (g :: 'a \<Rightarrow> 'b::comm_monoid_add) xs)"
proof -
  have "mset (map g (sort_key f xs)) = mset (map g xs)" by simp
  then show ?thesis by (metis sum_mset_sum_list)
qed

lemma sum_list_indicator:
  "distinct zs \<Longrightarrow> sum_list (map (\<lambda>k. if x = k then 1 else 0) zs) = (if x \<in> set zs then 1 else (0::nat))"
  by (induction zs) auto

lemma sum_list_counts:
  "distinct ys \<Longrightarrow> set xs \<subseteq> set ys \<Longrightarrow>
     sum_list (map (count_list xs) (filter Q ys)) = length (filter Q xs)"
proof (induction xs)
  case Nil
  show ?case by simp
next
  case (Cons x xs)
  let ?zs = "filter Q ys"
  have d: "distinct ?zs" using Cons.prems(1) by simp
  have "sum_list (map (count_list (x # xs)) ?zs)
          = sum_list (map (\<lambda>k. count_list xs k + (if x = k then 1 else 0)) ?zs)"
    by (rule arg_cong [where f = sum_list]) (rule map_cong, auto)
  also have "\<dots> = sum_list (map (count_list xs) ?zs)
                   + sum_list (map (\<lambda>k. if x = k then 1 else 0) ?zs)"
    by (rule sum_list_addf)
  also have "\<dots> = length (filter Q xs) + (if x \<in> set ?zs then 1 else 0)"
    using Cons d by (simp add: sum_list_indicator)
  also have "\<dots> = length (filter Q (x # xs))"
    using Cons.prems(2) by simp
  finally show ?case .
qed

lemma distinct_unique [simp]: "distinct (unique xs)"
  by (simp add: unique_def)

lemma value_counts_set:
  "set (value_counts xs)
     = (\<lambda>v. (v, count_list (filter (\<lambda>c. c \<noteq> None) xs) v)) ` set (filter (\<lambda>c. c \<noteq> None) xs)"
  by (simp add: value_counts_def Let_def)

lemma value_counts_total:
  "sum_list (map snd (value_counts xs)) = length (filter (\<lambda>c. c \<noteq> None) xs)"
proof -
  let ?vs = "filter (\<lambda>c. c \<noteq> None) xs"
  have "sum_list (map snd (value_counts xs))
          = sum_list (map snd (map (\<lambda>v. (v, count_list ?vs v)) (unique ?vs)))"
    by (simp only: value_counts_def Let_def sum_list_sort_key)
  also have "\<dots> = sum_list (map (count_list ?vs) (filter (\<lambda>_. True) (unique ?vs)))"
    by (simp add: comp_def)
  also have "\<dots> = length (filter (\<lambda>_. True) ?vs)"
    by (rule sum_list_counts) simp_all
  finally show ?thesis by simp
qed

lemma map_snd_case: "map snd (map (\<lambda>(a, c). (a, h c)) L) = map (\<lambda>(a, c). h c) L"
  by (simp add: case_prod_beta)

lemma sum_list_percentages:
  "sum_list (map (\<lambda>(a, c). (of_nat c / T) * 100) L)
     = (of_nat (sum_list (map snd L)) / T) * (100::rat)"
  by (induction L) (auto simp: add_divide_distrib distrib_right)

text \<open>The rows a breakdown is computed on, and the answers that count.\<close>

lemma aggregated_unfold:
  assumes "length (filter (\<lambda>c. c \<noteq> None)
             (map answer (filter (\<lambda>r. startswith (astype_str (question r)) prefix) df))) \<noteq> 0"
  shows "calculate_aggregated_answer_percentages df prefix
     = sort_key (\<lambda>(a, p). - p)
         (map (\<lambda>(a, c). (a, (of_nat c / of_nat (length (filter (\<lambda>c. c \<noteq> None)
                   (map answer (filter (\<lambda>r. startswith (astype_str (question r)) prefix) df)))))
                 * 100))
            (value_counts (map answer (filter (\<lambda>r. startswith (astype_str (question r)) prefix) df))))"
proof -
  let ?M = "filter (\<lambda>r. startswith (astype_str (question r)) prefix) df"
  have "?M \<noteq> []"
  proof
    assume e: "?M = []"
    have "length (filter (\<lambda>c. c \<noteq> None) (map answer ?M)) = 0"
      unfolding e by simp
    with assms show False by blast
  qed
  with assms show ?thesis
    unfolding calculate_aggregated_answer_percentages_def Let_def value_counts_total
    by simp
qed

lemma aggregated_empty:
  assumes "length (filter (\<lambda>c. c \<noteq> None)
             (map answer (filter (\<lambda>r. startswith (astype_str (question r)) prefix) df))) = 0"
  shows "calculate_aggregated_answer_percentages df prefix = []"
  using assms
  unfolding calculate_aggregated_answer_percentages_def Let_def value_counts_total
  by simp

lemma aggregated_sum:
  assumes "\<exists>r \<in> set df. startswith (astype_str (question r)) prefix \<and> answer r \<noteq> None"
  shows "sum_list (map snd (calculate_aggregated_answer_percentages df prefix)) = 100"
proof -
  let ?M = "filter (\<lambda>r. startswith (astype_str (question r)) prefix) df"
  let ?T = "length (filter (\<lambda>c. c \<noteq> None) (map answer ?M))"
  from assms obtain r where r: "r \<in> set df" "startswith (astype_str (question r)) prefix"
    "answer r \<noteq> None" by blast
  then have "r \<in> set ?M" by simp
  then have "answer r \<in> set (map answer ?M)" by (simp only: set_map) (rule imageI)
  with r(3) have "answer r \<in> set (filter (\<lambda>c. c \<noteq> None) (map answer ?M))"
    by (simp only: set_filter) blast
  then have "0 < ?T" by (rule length_pos_if_in_set)
  then have T: "?T \<noteq> 0" by blast
  have "sum_list (map snd (calculate_aggregated_answer_percentages df prefix))
          = sum_list (map snd (map (\<lambda>(a, c). (a, (of_nat c / of_nat ?T) * (100::rat)))
                                (value_counts (map answer ?M))))"
    by (simp only: aggregated_unfold [OF T] sum_list_sort_key)
  also have "\<dots> = sum_list (map (\<lambda>(a, c). (of_nat c / of_nat ?T) * (100::rat))
                            (value_counts (map answer ?M)))"
    by (simp only: map_snd_case)
  also have "\<dots> = (of_nat ?T / of_nat ?T) * 100"
    by (simp only: sum_list_percentages value_counts_total)
  also have "\<dots> = 100" using T by simp
  finally show ?thesis .
qed
lemma count_answers:
  "a \<noteq> None \<Longrightarrow>
     count_list (filter (\<lambda>c. c \<noteq> None) (map answer M)) a = length (filter (\<lambda>r. answer r = a) M)"
  by (induction M) auto

lemma length_answers:
  "length (filter (\<lambda>c. c \<noteq> None) (map answer M)) = length (filter (\<lambda>r. answer r \<noteq> None) M)"
  by (induction M) auto

lemma aggregated_member:
  assumes "(a, p) \<in> set (calculate_aggregated_answer_percentages df prefix)"
  shows "a \<noteq> None"
    and "p = (of_nat (length (filter (\<lambda>r. answer r = a)
                         (filter (\<lambda>r. startswith (astype_str (question r)) prefix) df)))
              / of_nat (length (filter (\<lambda>r. answer r \<noteq> None)
                         (filter (\<lambda>r. startswith (astype_str (question r)) prefix) df))))
             * 100"
proof -
  let ?M = "filter (\<lambda>r. startswith (astype_str (question r)) prefix) df"
  let ?vs = "filter (\<lambda>c. c \<noteq> None) (map answer ?M)"
  let ?T = "length ?vs"
  have T: "?T \<noteq> 0"
  proof
    assume "?T = 0"
    then have "calculate_aggregated_answer_percentages df prefix = []"
      by (rule aggregated_empty)
    with assms show False by simp
  qed
  from assms have "(a, p) \<in> set (map (\<lambda>(a, c). (a, (of_nat c / of_nat ?T) * (100::rat)))
                                  (value_counts (map answer ?M)))"
    by (simp only: aggregated_unfold [OF T] set_sort)
  then obtain c where c: "(a, c) \<in> set (value_counts (map answer ?M))"
    and p: "p = (of_nat c / of_nat ?T) * 100"
    by auto
  from c have "a \<in> set ?vs" and cv: "c = count_list ?vs a"
    by (auto simp only: value_counts_set)
  then show a: "a \<noteq> None" by simp
  have "c = length (filter (\<lambda>r. answer r = a) ?M)"
    by (simp only: cv count_answers [OF a])
  with p show "p = (of_nat (length (filter (\<lambda>r. answer r = a) ?M))
              / of_nat (length (filter (\<lambda>r. answer r \<noteq> None) ?M))) * 100"
    by (simp only: length_answers)
qed

lemma value_counts_cong:
  "filter (\<lambda>c. c \<noteq> None) xs = filter (\<lambda>c. c \<noteq> None) ys \<Longrightarrow> value_counts xs = value_counts ys"
  by (simp only: value_counts_def)

lemma answered_answers:
  "filter (\<lambda>c. c \<noteq> None) (map answer (filter (\<lambda>r. answer r \<noteq> None) M))
     = filter (\<lambda>c. c \<noteq> None) (map answer M)"
  by (induction M) auto

lemma aggregated_drop_missing:
  "calculate_aggregated_answer_percentages (filter (\<lambda>r. answer r \<noteq> None) df) prefix
     = calculate_aggregated_answer_percentages df prefix"
proof -
  let ?P = "\<lambda>r. startswith (astype_str (question r)) prefix"
  let ?A = "\<lambda>r. answer r \<noteq> None"
  let ?M = "filter ?P df"
  let ?M' = "filter ?P (filter ?A df)"
  have M': "?M' = filter ?A ?M"
    by (induction df) auto
  have vs: "filter (\<lambda>c. c \<noteq> None) (map answer ?M') = filter (\<lambda>c. c \<noteq> None) (map answer ?M)"
    by (simp only: M' answered_answers)
  then have vc: "value_counts (map answer ?M') = value_counts (map answer ?M)"
    by (rule value_counts_cong)
  show ?thesis
  proof (cases "length (filter (\<lambda>c. c \<noteq> None) (map answer ?M)) = 0")
    case True
    then have "length (filter (\<lambda>c. c \<noteq> None) (map answer ?M')) = 0"
      by (simp only: vs)
    then have "calculate_aggregated_answer_percentages (filter ?A df) prefix = []"
      by (rule aggregated_empty)
    with aggregated_empty [OF True] show ?thesis by simp
  next
    case False
    have F': "length (filter (\<lambda>c. c \<noteq> None) (map answer ?M')) \<noteq> 0"
      unfolding vs by (rule False)
    show ?thesis
      by (simp only: aggregated_unfold [OF False] aggregated_unfold [OF F'] vs vc)
  qed
qed

text \<open>Per-user breakdown: the counts table, the totals and the join.\<close>

lemma groupby_size_entry:
  assumes "((u, a), c) \<in> set (groupby_size df)"
  shows "u \<noteq> None" and "a \<noteq> None"
    and "c = count_list (filter (\<lambda>(u, a). u \<noteq> None \<and> a \<noteq> None)
                           (map (\<lambda>r. (hashed_user_id r, answer r)) df)) (u, a)"
    and "(u, a) \<in> set (filter (\<lambda>(u, a). u \<noteq> None \<and> a \<noteq> None)
                           (map (\<lambda>r. (hashed_user_id r, answer r)) df))"
  using assms by (auto simp: groupby_size_def Let_def)

lemma lookup_total:
  "distinct us \<Longrightarrow> u \<in> set us \<Longrightarrow>
     filter (\<lambda>(u', t). u' = u) (map (\<lambda>u. (u, g u)) us) = [(u, g u)]"
proof (induction us)
  case Nil
  then show ?case by simp
next
  case (Cons x us)
  show ?case
  proof (cases "x = u")
    case True
    with Cons.prems have "u \<notin> set us" by simp
    then have "filter (\<lambda>(u', t). u' = u) (map (\<lambda>u. (u, g u)) us) = []"
      by (auto simp: filter_empty_conv)
    with True show ?thesis by simp
  next
    case False
    with Cons show ?thesis by auto
  qed
qed

lemma merge_totals_groupby_sum:
  assumes "\<forall>((u, a), c) \<in> set AC. u \<noteq> None"
  shows "merge_totals AC (groupby_sum AC)
           = map (\<lambda>((u, a), c).
                    (u, a, c, sum_list (map snd (filter (\<lambda>((u', a), c). u' = u) AC)))) AC"
proof -
  let ?us = "sort (remdups (filter (\<lambda>u. u \<noteq> None) (map (\<lambda>((u, a), c). u) AC)))"
  let ?g = "\<lambda>u. sum_list (map snd (filter (\<lambda>((u', a), c). u' = u) AC))"
  have d: "distinct ?us" by simp
  have one: "map (\<lambda>(u', total). (u, a, c, total))
               (filter (\<lambda>(u', total). u' = u) (groupby_sum AC)) = [(u, a, c, ?g u)]"
    if "((u, a), c) \<in> set AC" for u a c
  proof -
    from that assms have "u \<noteq> None" by auto
    with that have "u \<in> set ?us" by force
    with d have "filter (\<lambda>(u', t). u' = u) (map (\<lambda>u. (u, ?g u)) ?us) = [(u, ?g u)]"
      by (rule lookup_total)
    then show ?thesis by (simp add: groupby_sum_def)
  qed
  have "map (\<lambda>((u, a), c). map (\<lambda>(u', total). (u, a, c, total))
                               (filter (\<lambda>(u', total). u' = u) (groupby_sum AC))) AC
          = map (\<lambda>x. [(\<lambda>((u, a), c). (u, a, c, ?g u)) x]) AC"
    by (rule map_cong) (auto simp: one)
  then show ?thesis
    unfolding merge_totals_def by (simp only: concat_map_singleton)
qed

lemma groupby_size_total:
  "sum_list (map snd (filter (\<lambda>((u', a), c). u' = u) (groupby_size df)))
     = length (filter (\<lambda>k. fst k = u)
                 (filter (\<lambda>(u, a). u \<noteq> None \<and> a \<noteq> None)
                    (map (\<lambda>r. (hashed_user_id r, answer r)) df)))"
proof -
  let ?ks = "filter (\<lambda>(u, a). u \<noteq> None \<and> a \<noteq> None)
               (map (\<lambda>r. (hashed_user_id r, answer r)) df)"
  have "map snd (filter (\<lambda>((u', a), c). u' = u) (groupby_size df))
          = map (count_list ?ks) (filter (\<lambda>k. fst k = u) (sort (remdups ?ks)))"
    by (simp add: groupby_size_def Let_def filter_map comp_def case_prod_beta)
  then have "sum_list (map snd (filter (\<lambda>((u', a), c). u' = u) (groupby_size df)))
          = sum_list (map (count_list ?ks) (filter (\<lambda>k. fst k = u) (sort (remdups ?ks))))"
    by (rule arg_cong)
  also have "\<dots> = length (filter (\<lambda>k. fst k = u) ?ks)"
    by (rule sum_list_counts) simp_all
  finally show ?thesis .
qed

lemma map_percentage_join:
  "map (\<lambda>(u, a, c, total). (u, a, h c total)) (map (\<lambda>((u, a), c). (u, a, c, g u)) AC)
     = map (\<lambda>((u, a), c). (u, a, h c (g u))) AC"
  by (simp add: case_prod_beta)

lemma user_percentages_alt:
  "user_percentages df
     = sort_key (\<lambda>(u, a, p). (u, - p))
         (map (\<lambda>((u, a), c).
                 (u, a, (of_nat c
                         / of_nat (sum_list (map snd (filter (\<lambda>((u', a), c). u' = u)
                                                        (groupby_size df))))) * 100))
            (groupby_size df))"
proof -
  have "\<forall>((u, a), c) \<in> set (groupby_size df). u \<noteq> None"
    by (auto dest: groupby_size_entry(1))
  then show ?thesis
    unfolding user_percentages_def Let_def
    by (simp only: merge_totals_groupby_sum map_percentage_join)
qed

lemma count_user_answers:
  "u \<noteq> None \<Longrightarrow> a \<noteq> None \<Longrightarrow>
     count_list (filter (\<lambda>(u, a). u \<noteq> None \<and> a \<noteq> None)
                   (map (\<lambda>r. (hashed_user_id r, answer r)) df)) (u, a)
       = length (filter (\<lambda>r. hashed_user_id r = u \<and> answer r = a) df)"
  by (induction df) auto

lemma length_user_answers:
  "u \<noteq> None \<Longrightarrow>
     length (filter (\<lambda>k. fst k = u)
               (filter (\<lambda>(u, a). u \<noteq> None \<and> a \<noteq> None)
                  (map (\<lambda>r. (hashed_user_id r, answer r)) df)))
       = length (filter (\<lambda>r. hashed_user_id r = u \<and> answer r \<noteq> None) df)"
  by (induction df) auto

lemma user_percentages_member:
  assumes "(u, a, p) \<in> set (user_percentages df)"
  shows "u \<noteq> None" and "a \<noteq> None"
    and "p = (of_nat (length (filter (\<lambda>r. hashed_user_id r = u \<and> answer r = a) df))
              / of_nat (length (filter (\<lambda>r. hashed_user_id r = u \<and> answer r \<noteq> None) df)))
             * 100"
    and "\<exists>r \<in> set df. hashed_user_id r = u \<and> answer r = a"
proof -
  from assms obtain c where c: "((u, a), c) \<in> set (groupby_size df)"
    and p: "p = (of_nat c / of_nat (sum_list (map snd (filter (\<lambda>((u', a), c). u' = u)
                                                        (groupby_size df))))) * 100"
    by (auto simp: user_percentages_alt)
  from c show u: "u \<noteq> None" and a: "a \<noteq> None"
    by (rule groupby_size_entry)+
  from c have "c = count_list (filter (\<lambda>(u, a). u \<noteq> None \<and> a \<noteq> None)
                           (map (\<lambda>r. (hashed_user_id r, answer r)) df)) (u, a)"
    by (rule groupby_size_entry(3))
  then have "c = length (filter (\<lambda>r. hashed_user_id r = u \<and> answer r = a) df)"
    by (simp only: count_user_answers [OF u a])
  moreover have "sum_list (map snd (filter (\<lambda>((u', a), c). u' = u) (groupby_size df)))
                   = length (filter (\<lambda>r. hashed_user_id r = u \<and> answer r \<noteq> None) df)"
    by (simp only: groupby_size_total length_user_answers [OF u])
  ultimately show "p = (of_nat (length (filter (\<lambda>r. hashed_user_id r = u \<and> answer r = a) df))
              / of_nat (length (filter (\<lambda>r. hashed_user_id r = u \<and> answer r \<noteq> None) df)))
             * 100"
    using p by simp
  from c have "(u, a) \<in> set (filter (\<lambda>(u, a). u \<noteq> None \<and> a \<noteq> None)
                           (map (\<lambda>r. (hashed_user_id r, answer r)) df))"
    by (rule groupby_size_entry(4))
  then show "\<exists>r \<in> set df. hashed_user_id r = u \<and> answer r = a" by auto
qed

lemma of_nat_rat_nonzero: "0 < n \<Longrightarrow> (of_nat n :: rat) \<noteq> 0"
  by simp

lemma whole_is_100: "x \<noteq> 0 \<Longrightarrow> (x / x) * 100 = (100::rat)"
  by simp

lemma filter_user_rows:
  "filter (\<lambda>(u', a, p). u' = u) (map (\<lambda>((u, a), c). (u, a, h u c)) AC)
     = map (\<lambda>((u', a), c). (u', a, h u c)) (filter (\<lambda>((u', a), c). u' = u) AC)"
  by (induction AC) auto

lemma map_third: "map (\<lambda>(u', a, p). p) (map (\<lambda>((u', a), c). (u', a, h c)) L) = map (\<lambda>(k, c). h c) L"
  by (simp add: case_prod_beta)

lemma user_percentages_sum:
  assumes "u \<in> fst ` set (user_percentages df)"
  shows "sum_list (map (\<lambda>(u', a, p). p) (filter (\<lambda>(u', a, p). u' = u) (user_percentages df))) = 100"
proof -
  let ?AC = "groupby_size df"
  let ?tot = "\<lambda>u. sum_list (map snd (filter (\<lambda>((u', a), c). u' = u) ?AC))"
  let ?ACu = "filter (\<lambda>((u', a), c). u' = u) ?AC"
  from assms obtain a p where m: "(u, a, p) \<in> set (user_percentages df)" by force
  then obtain c where c: "((u, a), c) \<in> set ?AC"
    by (auto simp: user_percentages_alt)
  then have u: "u \<noteq> None" and a: "a \<noteq> None"
    and "(u, a) \<in> set (filter (\<lambda>(u, a). u \<noteq> None \<and> a \<noteq> None)
                           (map (\<lambda>r. (hashed_user_id r, answer r)) df))"
    by (rule groupby_size_entry)+
  then have "(u, a) \<in> set (filter (\<lambda>k. fst k = u)
                (filter (\<lambda>(u, a). u \<noteq> None \<and> a \<noteq> None)
                   (map (\<lambda>r. (hashed_user_id r, answer r)) df)))"
    by simp
  then have "0 < ?tot u"
    unfolding groupby_size_total by (rule length_pos_if_in_set)
  then have T: "(of_nat (?tot u) :: rat) \<noteq> 0" by (rule of_nat_rat_nonzero)
  have "sum_list (map (\<lambda>(u', a, p). p) (filter (\<lambda>(u', a, p). u' = u) (user_percentages df)))
          = sum_list (map (\<lambda>(u', a, p). p)
              (filter (\<lambda>(u', a, p). u' = u)
                 (map (\<lambda>((u, a), c). (u, a, (of_nat c / of_nat (?tot u)) * (100::rat))) ?AC)))"
    unfolding user_percentages_alt by (simp only: filter_sort sum_list_sort_key)
  also have "\<dots> = sum_list (map (\<lambda>(u', a, p). p)
              (map (\<lambda>((u', a), c). (u', a, (of_nat c / of_nat (?tot u)) * (100::rat))) ?ACu))"
    by (simp only: filter_user_rows [where h = "\<lambda>u c. (of_nat c / of_nat (?tot u)) * 100"])
  also have "\<dots> = sum_list (map (\<lambda>(k, c). (of_nat c / of_nat (?tot u)) * (100::rat)) ?ACu)"
    by (simp only: map_third)
  also have "\<dots> = (of_nat (sum_list (map snd ?ACu)) / of_nat (?tot u)) * 100"
    by (rule sum_list_percentages)
  also have "\<dots> = 100" using T by (rule whole_is_100)
  finally show ?thesis .
qed

lemma groupby_size_drop_missing:
  "groupby_size (filter (\<lambda>r. answer r \<noteq> None) df) = groupby_size df"
proof -
  have "filter (\<lambda>(u, a). u \<noteq> None \<and> a \<noteq> None)
          (map (\<lambda>r. (hashed_user_id r, answer r)) (filter (\<lambda>r. answer r \<noteq> None) df))
        = filter (\<lambda>(u, a). u \<noteq> None \<and> a \<noteq> None)
          (map (\<lambda>r. (hashed_user_id r, answer r)) df)"
    by (induction df) auto
  then show ?thesis by (simp only: groupby_size_def)
qed

lemma user_percentages_drop_missing:
  "user_percentages (filter (\<lambda>r. answer r \<noteq> None) df) = user_percentages df"
  by (simp only: user_percentages_def groupby_size_drop_missing)

lemma user_percentages_users:
  "fst ` set (user_percentages df)
     = {u. u \<noteq> None \<and> (\<exists>r \<in> set df. hashed_user_id r = u \<and> answer r \<noteq> None)}"
proof (intro equalityI subsetI)
  fix u assume "u \<in> fst ` set (user_percentages df)"
  then obtain a p where "(u, a, p) \<in> set (user_percentages df)" by force
  then have "u \<noteq> None" "a \<noteq> None" "\<exists>r \<in> set df. hashed_user_id r = u \<and> answer r = a"
    by (rule user_percentages_member)+
  then show "u \<in> {u. u \<noteq> None \<and> (\<exists>r \<in> set df. hashed_user_id r = u \<and> answer r \<noteq> None)}"
    by auto
next
  fix u assume "u \<in> {u. u \<noteq> None \<and> (\<exists>r \<in> set df. hashed_user_id r = u \<and> answer r \<noteq> None)}"
  then obtain r where r: "u \<noteq> None" "r \<in> set df" "hashed_user_id r = u" "answer r \<noteq> None"
    by auto
  let ?ks = "filter (\<lambda>(u, a). u \<noteq> None \<and> a \<noteq> None)
               (map (\<lambda>r. (hashed_user_id r, answer r)) df)"
  from r have "(u, answer r) \<in> set ?ks" by force
  then have "((u, answer r), count_list ?ks (u, answer r)) \<in> set (groupby_size df)"
    by (simp add: groupby_size_def Let_def)
  then have "\<exists>p. (u, answer r, p) \<in> set (user_percentages df)"
    unfolding user_percentages_alt by (simp only: set_sort set_map) force
  then show "u \<in> fst ` set (user_percentages df)" by force
qed

text \<open>
  Claim C1 says that whenever at least one row's question matches the prefix, the
  global percentages sum to 100. A single matching row whose answer cell is empty is
  such a dataset, and the breakdown of it is the empty table, whose percentages sum to 0.
\<close>

theorem all_answers_missing_counterexample:
  "startswith (astype_str (question (survey_row ''h1'' ''s1'' ''Now, drought?'' None (Some 5))))
     ''Now,''
   \<and> calculate_aggregated_answer_percentages
        [survey_row ''h1'' ''s1'' ''Now, drought?'' None (Some 5)] ''Now,'' = []
   \<and> sum_list (map snd (calculate_aggregated_answer_percentages
        [survey_row ''h1'' ''s1'' ''Now, drought?'' None (Some 5)] ''Now,'')) \<noteq> 100"
proof -
  have "calculate_aggregated_answer_percentages
          [survey_row ''h1'' ''s1'' ''Now, drought?'' None (Some 5)] ''Now,'' = []"
    by code_simp
  moreover have "startswith (astype_str (question
          (survey_row ''h1'' ''s1'' ''Now, drought?'' None (Some 5)))) ''Now,''"
    by code_simp
  ultimately show ?thesis by simp
qed

text \<open>
  Claim C1, amended. Whenever at least one row that matches the prefix has a non-missing
  answer, the percentages of the global breakdown sum to 100. In the per-user breakdown,
  for every hashed_user_id that appears in the table the percentages of that user's rows
  sum to 100; the users that appear are those with a non-missing id and at least one
  non-missing answer among the rows the table is computed from. The same holds of the
  table the per-user script writes. Percentages are exact rationals here; the scripts'
  floating-point sums differ from 100 by rounding only.
\<close>

theorem percentages_sum_to_100:
  "((\<exists>r \<in> set df. startswith (astype_str (question r)) prefix \<and> answer r \<noteq> None) \<longrightarrow>
      sum_list (map snd (calculate_aggregated_answer_percentages df prefix)) = 100)
   \<and> (u \<in> fst ` set (user_percentages df) \<longrightarrow>
      sum_list (map (\<lambda>(u', a, p). p)
                  (filter (\<lambda>(u', a, p). u' = u) (user_percentages df))) = 100)
   \<and> fst ` set (user_percentages df)
       = {u. u \<noteq> None \<and> (\<exists>r \<in> set df. hashed_user_id r = u \<and> answer r \<noteq> None)}
   \<and> (calculate_drought_answer_percentages stdin = Exit0 [UserCsv tbl] \<and> u \<in> fst ` set tbl \<longrightarrow>
      sum_list (map (\<lambda>(u', a, p). p) (filter (\<lambda>(u', a, p). u' = u) tbl)) = 100)"
proof (intro conjI impI)
  assume "\<exists>r \<in> set df. startswith (astype_str (question r)) prefix \<and> answer r \<noteq> None"
  then show "sum_list (map snd (calculate_aggregated_answer_percentages df prefix)) = 100"
    by (rule aggregated_sum)
next
  assume "u \<in> fst ` set (user_percentages df)"
  then show "sum_list (map (\<lambda>(u', a, p). p)
                  (filter (\<lambda>(u', a, p). u' = u) (user_percentages df))) = 100"
    by (rule user_percentages_sum)
next
  show "fst ` set (user_percentages df)
       = {u. u \<noteq> None \<and> (\<exists>r \<in> set df. hashed_user_id r = u \<and> answer r \<noteq> None)}"
    by (rule user_percentages_users)
next
  assume a: "calculate_drought_answer_percentages stdin = Exit0 [UserCsv tbl] \<and> u \<in> fst ` set tbl"
  then obtain df' where "tbl = user_percentages df'"
    by (auto simp: calculate_drought_answer_percentages_def Let_def
          split: option.splits if_splits)
  with a show "sum_list (map (\<lambda>(u', a, p). p) (filter (\<lambda>(u', a, p). u' = u) tbl)) = 100"
    by (simp add: user_percentages_sum)
qed
text \<open>
  Four rows for the prefix Now,: answers A, B, B and one missing, of users h1, h1, h0 and
  h1. Globally B has two thirds and A one third; per user, h0 has B at 100 and h1 has A
  and B at 50 each.
\<close>

theorem percentages_sum_to_100_witness:
  "calculate_aggregated_answer_percentages
     [survey_row ''h1'' ''s1'' ''Now, drought?'' (Some ''A'') (Some 1),
      survey_row ''h1'' ''s1'' ''Now, floods?'' (Some ''B'') (Some 2),
      survey_row ''h0'' ''s2'' ''Now, drought?'' (Some ''B'') (Some 3),
      survey_row ''h1'' ''s1'' ''Now, heat?'' None (Some 4)] ''Now,''
     = [(Some ''B'', 200 / 3), (Some ''A'', 100 / 3)]
   \<and> sum_list (map snd (calculate_aggregated_answer_percentages
     [survey_row ''h1'' ''s1'' ''Now, drought?'' (Some ''A'') (Some 1),
      survey_row ''h1'' ''s1'' ''Now, floods?'' (Some ''B'') (Some 2),
      survey_row ''h0'' ''s2'' ''Now, drought?'' (Some ''B'') (Some 3),
      survey_row ''h1'' ''s1'' ''Now, heat?'' None (Some 4)] ''Now,'')) = 100
   \<and> user_percentages
     [survey_row ''h1'' ''s1'' ''Now, drought?'' (Some ''A'') (Some 1),
      survey_row ''h1'' ''s1'' ''Now, floods?'' (Some ''B'') (Some 2),
      survey_row ''h0'' ''s2'' ''Now, drought?'' (Some ''B'') (Some 3),
      survey_row ''h1'' ''s1'' ''Now, heat?'' None (Some 4)]
     = [(Some ''h0'', Some ''B'', 100), (Some ''h1'', Some ''A'', 50), (Some ''h1'', Some ''B'', 50)]
   \<and> sum_list (map (\<lambda>(u', a, p). p) (filter (\<lambda>(u', a, p). u' = Some ''h1'')
     (user_percentages
       [survey_row ''h1'' ''s1'' ''Now, drought?'' (Some ''A'') (Some 1),
        survey_row ''h1'' ''s1'' ''Now, floods?'' (Some ''B'') (Some 2),
        survey_row ''h0'' ''s2'' ''Now, drought?'' (Some ''B'') (Some 3),
        survey_row ''h1'' ''s1'' ''Now, heat?'' None (Some 4)]))) = 100"
proof -
  let ?a = "survey_row ''h1'' ''s1'' ''Now, drought?'' (Some ''A'') (Some 1)"
  let ?df = "[?a,
      survey_row ''h1'' ''s1'' ''Now, floods?'' (Some ''B'') (Some 2),
      survey_row ''h0'' ''s2'' ''Now, drought?'' (Some ''B'') (Some 3),
      survey_row ''h1'' ''s1'' ''Now, heat?'' None (Some 4)]"
  have e1: "calculate_aggregated_answer_percentages ?df ''Now,''
              = [(Some ''B'', 200 / 3), (Some ''A'', 100 / 3)]"
    by code_simp
  have e2: "user_percentages ?df
              = [(Some ''h0'', Some ''B'', 100), (Some ''h1'', Some ''A'', 50),
                 (Some ''h1'', Some ''B'', 50)]"
    by code_simp
  have "?a \<in> set ?df" "startswith (astype_str (question ?a)) ''Now,''" "answer ?a \<noteq> None"
    by (simp_all add: survey_row_def astype_str_def)
  then have h1: "\<exists>r \<in> set ?df. startswith (astype_str (question r)) ''Now,'' \<and> answer r \<noteq> None"
    by blast
  have h2: "Some ''h1'' \<in> fst ` set (user_percentages ?df)"
    unfolding e2 by simp
  note inst = percentages_sum_to_100 [where df = ?df and prefix = "''Now,''" and u = "Some ''h1''"]
  from inst h1 have 1: "sum_list (map snd (calculate_aggregated_answer_percentages ?df ''Now,'')) = 100"
    by blast
  from inst h2 have 2: "sum_list (map (\<lambda>(u', a, p). p)
      (filter (\<lambda>(u', a, p). u' = Some ''h1'') (user_percentages ?df))) = 100"
    by blast
  from e1 1 e2 2 show ?thesis by blast
qed

text \<open>
  Claim C10. A row that matches the prefix but has a missing answer contributes to
  neither the per-answer counts nor the denominator: both breakdowns are unchanged when
  the rows with a missing answer are removed first, no output category is the missing
  answer, and each reported percentage is the number of the (user's) matching rows with
  that answer over the number of the (user's) matching rows with a non-missing answer,
  times 100.
\<close>

theorem missing_answers_excluded:
  "calculate_aggregated_answer_percentages (filter (\<lambda>r. answer r \<noteq> None) df) prefix
     = calculate_aggregated_answer_percentages df prefix
   \<and> user_percentages (filter (\<lambda>r. answer r \<noteq> None) df) = user_percentages df
   \<and> ((a, p) \<in> set (calculate_aggregated_answer_percentages df prefix) \<longrightarrow>
        a \<noteq> None
        \<and> p = (of_nat (length (filter (\<lambda>r. answer r = a)
                    (filter (\<lambda>r. startswith (astype_str (question r)) prefix) df)))
               / of_nat (length (filter (\<lambda>r. answer r \<noteq> None)
                    (filter (\<lambda>r. startswith (astype_str (question r)) prefix) df))))
              * 100)
   \<and> ((u, a, p) \<in> set (user_percentages df) \<longrightarrow>
        a \<noteq> None
        \<and> p = (of_nat (length (filter (\<lambda>r. hashed_user_id r = u \<and> answer r = a) df))
               / of_nat (length (filter (\<lambda>r. hashed_user_id r = u \<and> answer r \<noteq> None) df)))
              * 100)"
proof (intro conjI impI)
  show "calculate_aggregated_answer_percentages (filter (\<lambda>r. answer r \<noteq> None) df) prefix
     = calculate_aggregated_answer_percentages df prefix"
    by (rule aggregated_drop_missing)
  show "user_percentages (filter (\<lambda>r. answer r \<noteq> None) df) = user_percentages df"
    by (rule user_percentages_drop_missing)
next
  assume m: "(a, p) \<in> set (calculate_aggregated_answer_percentages df prefix)"
  then show "a \<noteq> None" by (rule aggregated_member(1))
  from m show "p = (of_nat (length (filter (\<lambda>r. answer r = a)
                    (filter (\<lambda>r. startswith (astype_str (question r)) prefix) df)))
               / of_nat (length (filter (\<lambda>r. answer r \<noteq> None)
                    (filter (\<lambda>r. startswith (astype_str (question r)) prefix) df))))
              * 100"
    by (rule aggregated_member(2))
next
  assume m: "(u, a, p) \<in> set (user_percentages df)"
  then show "a \<noteq> None" by (rule user_percentages_member(2))
  from m show "p = (of_nat (length (filter (\<lambda>r. hashed_user_id r = u \<and> answer r = a) df))
               / of_nat (length (filter (\<lambda>r. hashed_user_id r = u \<and> answer r \<noteq> None) df)))
              * 100"
    by (rule user_percentages_member(3))
qed

text \<open>
  One answer A and one missing answer of the same user: A is reported at 100 percent,
  one row of one counted row, in both breakdowns.
\<close>

theorem missing_answers_excluded_witness:
  "calculate_aggregated_answer_percentages
     [survey_row ''h1'' ''s1'' ''Now, drought?'' (Some ''A'') (Some 1),
      survey_row ''h1'' ''s1'' ''Now, heat?'' None (Some 4)] ''Now,''
     = [(Some ''A'', 100)]
   \<and> Some ''A'' \<noteq> None
   \<and> (100::rat) = (of_nat 1 / of_nat 1) * 100
   \<and> user_percentages
     [survey_row ''h1'' ''s1'' ''Now, drought?'' (Some ''A'') (Some 1),
      survey_row ''h1'' ''s1'' ''Now, heat?'' None (Some 4)]
     = [(Some ''h1'', Some ''A'', 100)]"
proof -
  let ?a = "survey_row ''h1'' ''s1'' ''Now, drought?'' (Some ''A'') (Some 1)"
  let ?b = "survey_row ''h1'' ''s1'' ''Now, heat?'' None (Some 4)"
  let ?df = "[?a, ?b]"
  have e1: "calculate_aggregated_answer_percentages ?df ''Now,'' = [(Some ''A'', 100)]"
    by code_simp
  have e2: "user_percentages ?df = [(Some ''h1'', Some ''A'', 100)]"
    by code_simp
  have m1: "(Some ''A'', 100) \<in> set (calculate_aggregated_answer_percentages ?df ''Now,'')"
    unfolding e1 by simp
  have m2: "(Some ''h1'', Some ''A'', 100) \<in> set (user_percentages ?df)"
    unfolding e2 by simp
  have n1: "length (filter (\<lambda>r. answer r = Some ''A'')
              (filter (\<lambda>r. startswith (astype_str (question r)) ''Now,'') ?df)) = 1"
    by code_simp
  have n2: "length (filter (\<lambda>r. answer r \<noteq> None)
              (filter (\<lambda>r. startswith (astype_str (question r)) ''Now,'') ?df)) = 1"
    by code_simp
  note inst = missing_answers_excluded [where df = ?df and prefix = "''Now,''"
      and a = "Some ''A''" and p = 100 and u = "Some ''h1''"]
  from inst m1 have "Some ''A'' \<noteq> None
     \<and> (100::rat) = (of_nat (length (filter (\<lambda>r. answer r = Some ''A'')
              (filter (\<lambda>r. startswith (astype_str (question r)) ''Now,'') ?df)))
          / of_nat (length (filter (\<lambda>r. answer r \<noteq> None)
              (filter (\<lambda>r. startswith (astype_str (question r)) ''Now,'') ?df)))) * 100"
    by blast
  then have g: "Some ''A'' \<noteq> None \<and> (100::rat) = (of_nat 1 / of_nat 1) * 100"
    unfolding n1 n2 .
  have n3: "length (filter (\<lambda>r. hashed_user_id r = Some ''h1'' \<and> answer r = Some ''A'') ?df) = 1"
    by code_simp
  have n4: "length (filter (\<lambda>r. hashed_user_id r = Some ''h1'' \<and> answer r \<noteq> None) ?df) = 1"
    by code_simp
  from inst m2 have "Some ''A'' \<noteq> None
     \<and> (100::rat) = (of_nat (length (filter (\<lambda>r. hashed_user_id r = Some ''h1''
                                                \<and> answer r = Some ''A'') ?df))
          / of_nat (length (filter (\<lambda>r. hashed_user_id r = Some ''h1''
                                                \<and> answer r \<noteq> None) ?df))) * 100"
    by blast
  then have "(100::rat) = (of_nat 1 / of_nat 1) * 100"
    unfolding n3 n4 by blast
  with g e1 e2 show ?thesis by blast
qed

end
